theory Spec2Isabelle
  imports Main "HOL-Library.AList"
begin

section \<open>Python text primitives\<close>

text \<open>
  Python strings are modelled as \<^typ>\<open>string\<close>, one \<^typ>\<open>char\<close> per code point; the model
  covers texts whose code points are below 256.  The functions below are the string
  methods the program calls, on that range.
\<close>

definition is_space :: "char \<Rightarrow> bool" where
  \<comment> \<open>\<open>str.isspace\<close> on one character; also the class \<open>\s\<close> of \<open>re\<close>\<close>
  "is_space c = (let n = (of_char c :: nat) in
     (9 \<le> n \<and> n \<le> 13) \<or> (28 \<le> n \<and> n \<le> 32) \<or> n = 133 \<or> n = 160)"

definition is_ascii_upper :: "char \<Rightarrow> bool" where
  "is_ascii_upper c = (let n = (of_char c :: nat) in 65 \<le> n \<and> n \<le> 90)"

definition is_ascii_lower :: "char \<Rightarrow> bool" where
  "is_ascii_lower c = (let n = (of_char c :: nat) in 97 \<le> n \<and> n \<le> 122)"

definition is_ascii_letter :: "char \<Rightarrow> bool" where
  \<comment> \<open>the class \<open>[a-zA-Z]\<close>\<close>
  "is_ascii_letter c = (is_ascii_lower c \<or> is_ascii_upper c)"

definition is_ascii_digit :: "char \<Rightarrow> bool" where
  \<comment> \<open>the class \<open>[0-9]\<close>; \<open>\d\<close> agrees with it below code point 256\<close>
  "is_ascii_digit c = (let n = (of_char c :: nat) in 48 \<le> n \<and> n \<le> 57)"

definition lower_char :: "char \<Rightarrow> char" where
  "lower_char c = (let n = (of_char c :: nat) in
     if (65 \<le> n \<and> n \<le> 90) \<or> (192 \<le> n \<and> n \<le> 222 \<and> n \<noteq> 215)
     then char_of (n + 32) else c)"

definition lower :: "string \<Rightarrow> string" where
  \<comment> \<open>\<open>str.lower\<close>\<close>
  "lower s = map lower_char s"

definition upper_char :: "char \<Rightarrow> char" where
  "upper_char c = (if is_ascii_lower c then char_of ((of_char c :: nat) - 32) else c)"

definition upper :: "string \<Rightarrow> string" where
  \<comment> \<open>\<open>str.upper\<close>; the program applies it to entries of its ASCII vocabulary only\<close>
  "upper s = map upper_char s"

fun title_from :: "bool \<Rightarrow> string \<Rightarrow> string" where
  "title_from prev_cased [] = []"
| "title_from prev_cased (c # cs) =
     (if is_ascii_letter c
      then (if prev_cased then lower_char c else upper_char c) # title_from True cs
      else c # title_from False cs)"

definition title :: "string \<Rightarrow> string" where
  \<comment> \<open>\<open>str.title\<close>; the program applies it to entries of its ASCII vocabulary only\<close>
  "title s = title_from False s"

definition strip :: "string \<Rightarrow> string" where
  \<comment> \<open>\<open>str.strip()\<close>\<close>
  "strip s = rev (dropWhile is_space (rev (dropWhile is_space s)))"

fun starts_with :: "string \<Rightarrow> string \<Rightarrow> bool" where
  "starts_with s [] = True"
| "starts_with [] (p # ps) = False"
| "starts_with (c # cs) (p # ps) = (c = p \<and> starts_with cs ps)"

fun substr_in :: "string \<Rightarrow> string \<Rightarrow> bool" where
  \<comment> \<open>\<open>k in s\<close> on strings\<close>
  "substr_in k [] = (k = [])"
| "substr_in k (c # cs) = (starts_with (c # cs) k \<or> substr_in k cs)"

fun split_from :: "string \<Rightarrow> string \<Rightarrow> string list" where
  "split_from cur [] = (if cur = [] then [] else [cur])"
| "split_from cur (c # cs) =
     (if is_space c
      then (if cur = [] then split_from [] cs else cur # split_from [] cs)
      else split_from (cur @ [c]) cs)"

definition split_ws :: "string \<Rightarrow> string list" where
  \<comment> \<open>\<open>str.split()\<close> without arguments: the maximal runs of non-whitespace\<close>
  "split_ws s = split_from [] s"

fun join :: "string \<Rightarrow> string list \<Rightarrow> string" where
  \<comment> \<open>\<open>sep.join(xs)\<close>\<close>
  "join sep [] = []"
| "join sep [x] = x"
| "join sep (x # y # ys) = x @ sep @ join sep (y # ys)"

fun split_on :: "(char \<Rightarrow> bool) \<Rightarrow> string \<Rightarrow> string \<Rightarrow> string list" where
  "split_on sep cur [] = [cur]"
| "split_on sep cur (c # cs) =
     (if sep c then cur # split_on sep [] cs else split_on sep (cur @ [c]) cs)"

definition re_split :: "(char \<Rightarrow> bool) \<Rightarrow> string \<Rightarrow> string list" where
  \<comment> \<open>\<open>re.split\<close> on a one-character class: empty pieces are kept\<close>
  "re_split sep s = split_on sep [] s"

section \<open>Regular expressions\<close>

datatype rexp =
    Nul
  | Eps
  | Sym "char \<Rightarrow> bool"
  | Alt rexp rexp
  | Seq rexp rexp
  | Rep rexp

fun nullable :: "rexp \<Rightarrow> bool" where
  "nullable Nul = False"
| "nullable Eps = True"
| "nullable (Sym P) = False"
| "nullable (Alt r s) = (nullable r \<or> nullable s)"
| "nullable (Seq r s) = (nullable r \<and> nullable s)"
| "nullable (Rep r) = True"

fun deriv :: "char \<Rightarrow> rexp \<Rightarrow> rexp" where
  "deriv c Nul = Nul"
| "deriv c Eps = Nul"
| "deriv c (Sym P) = (if P c then Eps else Nul)"
| "deriv c (Alt r s) = Alt (deriv c r) (deriv c s)"
| "deriv c (Seq r s) =
     (if nullable r then Alt (Seq (deriv c r) s) (deriv c s) else Seq (deriv c r) s)"
| "deriv c (Rep r) = Seq (deriv c r) (Rep r)"

fun matches :: "rexp \<Rightarrow> string \<Rightarrow> bool" where
  "matches r [] = nullable r"
| "matches r (c # cs) = matches (deriv c r) cs"

definition one_or_more :: "rexp \<Rightarrow> rexp" where
  \<comment> \<open>\<open>r+\<close>\<close>
  "one_or_more r = Seq r (Rep r)"

definition optional :: "rexp \<Rightarrow> rexp" where
  \<comment> \<open>\<open>r?\<close>\<close>
  "optional r = Alt Eps r"

fun exactly :: "nat \<Rightarrow> rexp \<Rightarrow> rexp" where
  \<comment> \<open>\<open>r{n}\<close>\<close>
  "exactly 0 r = Eps"
| "exactly (Suc n) r = Seq r (exactly n r)"

fun up_to :: "nat \<Rightarrow> rexp \<Rightarrow> rexp" where
  \<comment> \<open>\<open>r{0,n}\<close>\<close>
  "up_to 0 r = Eps"
| "up_to (Suc n) r = optional (Seq r (up_to n r))"

definition re_match_anchored :: "rexp \<Rightarrow> string \<Rightarrow> bool" where
  \<comment> \<open>\<open>bool(re.match('^r$', s))\<close>: \<open>$\<close> matches at the end of the string and also just
      before a newline that ends the string\<close>
  "re_match_anchored r s =
     (matches r s \<or> (s \<noteq> [] \<and> last s = CHR 0x0A \<and> matches r (butlast s)))"

section \<open>Validators (utils.py)\<close>

definition email_local_char :: "char \<Rightarrow> bool" where
  \<comment> \<open>\<open>[a-zA-Z0-9._%+-]\<close>\<close>
  "email_local_char c = (is_ascii_letter c \<or> is_ascii_digit c \<or> c \<in> set ''._%+-'')"

definition email_domain_char :: "char \<Rightarrow> bool" where
  \<comment> \<open>\<open>[a-zA-Z0-9.-]\<close>\<close>
  "email_domain_char c = (is_ascii_letter c \<or> is_ascii_digit c \<or> c \<in> set ''.-'')"

definition email_pattern :: rexp where
  \<comment> \<open>\<open>[a-zA-Z0-9._%+-]+@[a-zA-Z0-9.-]+\.[a-zA-Z]{2,}\<close>\<close>
  "email_pattern =
     Seq (one_or_more (Sym email_local_char))
    (Seq (Sym (\<lambda>c. c = CHR ''@''))
    (Seq (one_or_more (Sym email_domain_char))
    (Seq (Sym (\<lambda>c. c = CHR ''.''))
    (Seq (exactly 2 (Sym is_ascii_letter)) (Rep (Sym is_ascii_letter))))))"

definition validate_email :: "string \<Rightarrow> bool" where
  "validate_email email = re_match_anchored email_pattern (strip email)"

definition phone_separator :: "char \<Rightarrow> bool" where
  \<comment> \<open>\<open>[\s\-\.\(\)]\<close>\<close>
  "phone_separator c = (is_space c \<or> c \<in> set ''-.()'')"

definition phone_pattern :: rexp where
  \<comment> \<open>\<open>\+?[0-9]{10,15}\<close>\<close>
  "phone_pattern =
     Seq (optional (Sym (\<lambda>c. c = CHR ''+'')))
    (Seq (exactly 10 (Sym is_ascii_digit)) (up_to 5 (Sym is_ascii_digit)))"

definition validate_phone :: "string \<Rightarrow> bool" where
  "validate_phone phone =
     (let cleaned = filter (\<lambda>c. \<not> phone_separator c) phone
      in re_match_anchored phone_pattern cleaned)"

fun first_number :: "string \<Rightarrow> string option" where
  \<comment> \<open>the first element of \<open>re.findall(r'(\d+(?:\.\d+)?)', s)\<close>, if there is one\<close>
  "first_number [] = None"
| "first_number (c # cs) =
     (if is_ascii_digit c
      then (let ds = takeWhile is_ascii_digit (c # cs);
                rest = dropWhile is_ascii_digit (c # cs)
            in case rest of
                 d # e # es \<Rightarrow>
                   (if d = CHR ''.'' \<and> is_ascii_digit e
                    then Some (ds @ [d] @ takeWhile is_ascii_digit (e # es))
                    else Some ds)
               | _ \<Rightarrow> Some ds)
      else first_number cs)"

definition text_to_num :: "(string \<times> string) list" where
  \<comment> \<open>the dictionary of spelled-out numbers, in its order; the number as its decimal text\<close>
  "text_to_num =
     [(''fresher'', ''0''), (''fresh'', ''0''), (''no experience'', ''0''),
      (''one'', ''1''), (''two'', ''2''), (''three'', ''3''), (''four'', ''4''),
      (''five'', ''5''), (''six'', ''6''), (''seven'', ''7''), (''eight'', ''8''),
      (''nine'', ''9''), (''ten'', ''10'')]"

fun first_text_number :: "(string \<times> string) list \<Rightarrow> string \<Rightarrow> string option" where
  "first_text_number [] lower_exp = None"
| "first_text_number ((text, num) # rest) lower_exp =
     (if substr_in text lower_exp then Some num else first_text_number rest lower_exp)"

definition validate_experience :: "string \<Rightarrow> string option" where
  \<comment> \<open>The float that the source returns is represented by the decimal text it is
      converted from: \<open>Some d\<close> stands for \<open>float(d)\<close>.\<close>
  "validate_experience experience =
     (case first_number experience of
        Some n \<Rightarrow> Some n
      | None \<Rightarrow> first_text_number text_to_num (lower experience))"

definition known_technologies :: "string list" where
  "known_technologies =
     [''python'', ''java'', ''javascript'', ''typescript'', ''c++'', ''c#'', ''ruby'', ''go'',
      ''rust'', ''php'', ''swift'', ''kotlin'', ''scala'', ''r'', ''matlab'', ''perl'',
      ''react'', ''angular'', ''vue'', ''svelte'', ''next.js'', ''nuxt'', ''html'', ''css'',
      ''sass'', ''less'', ''tailwind'', ''bootstrap'', ''jquery'', ''redux'',
      ''django'', ''flask'', ''fastapi'', ''spring'', ''node.js'', ''express'', ''rails'',
      ''laravel'', ''asp.net'', ''.net'', ''graphql'', ''rest'', ''grpc'',
      ''mysql'', ''postgresql'', ''mongodb'', ''redis'', ''elasticsearch'', ''sqlite'',
      ''oracle'', ''sql server'', ''dynamodb'', ''cassandra'', ''neo4j'', ''firebase'',
      ''aws'', ''azure'', ''gcp'', ''docker'', ''kubernetes'', ''jenkins'', ''terraform'',
      ''ansible'', ''gitlab'', ''github actions'', ''circleci'', ''linux'',
      ''tensorflow'', ''pytorch'', ''keras'', ''scikit-learn'', ''pandas'', ''numpy'',
      ''opencv'', ''nltk'', ''spacy'', ''hugging face'', ''langchain'',
      ''react native'', ''flutter'', ''android'', ''ios'', ''xamarin'',
      ''git'', ''jira'', ''confluence'', ''figma'', ''postman'', ''swagger'']"

fun scan_known :: "string list \<Rightarrow> string \<Rightarrow> string list" where
  \<comment> \<open>the first loop of \<open>parse_tech_stack\<close>\<close>
  "scan_known [] lower_text = []"
| "scan_known (tech # rest) lower_text =
     (if substr_in tech lower_text
      then (if length tech > 3 then title tech else upper tech) # scan_known rest lower_text
      else scan_known rest lower_text)"

fun add_custom :: "string list \<Rightarrow> string list \<Rightarrow> string list" where
  \<comment> \<open>the second loop of \<open>parse_tech_stack\<close>, \<open>identified\<close> being the accumulator\<close>
  "add_custom [] identified = identified"
| "add_custom (piece # rest) identified =
     (let tech = strip piece in
      if tech \<noteq> [] \<and> length tech > 1 \<and> lower tech \<notin> set (map lower identified)
      then add_custom rest (identified @ [tech])
      else add_custom rest identified)"

definition identified_technologies :: "string \<Rightarrow> string list" where
  \<comment> \<open>the list \<open>identified\<close> of \<open>parse_tech_stack\<close> when its two loops are done\<close>
  "identified_technologies tech_stack_text =
     add_custom (re_split (\<lambda>c. c \<in> set '',;/\<newline>'') tech_stack_text)
       (scan_known known_technologies (lower tech_stack_text))"

definition parse_tech_stack :: "(string list \<Rightarrow> string list) \<Rightarrow> string \<Rightarrow> string list" where
  \<comment> \<open>\<open>list_of_set\<close> stands for Python's \<open>list(set(xs))\<close>: the distinct elements of \<open>xs\<close>
      in the iteration order of a hash set, which the program does not choose.\<close>
  "parse_tech_stack list_of_set tech_stack_text =
     take 15 (list_of_set (identified_technologies tech_stack_text))"

definition EXIT_KEYWORDS :: "string list" where
  "EXIT_KEYWORDS =
     [''bye'', ''goodbye'', ''exit'', ''quit'', ''end'', ''stop'',
      ''thank you'', ''thanks'', ''that's all'', ''no more'',
      ''end conversation'', ''close'', ''terminate'']"

fun any_keyword_in :: "string list \<Rightarrow> string \<Rightarrow> bool" where
  \<comment> \<open>the loop of \<open>check_exit_intent\<close>\<close>
  "any_keyword_in [] lower_message = False"
| "any_keyword_in (keyword # rest) lower_message =
     (if substr_in keyword lower_message then True else any_keyword_in rest lower_message)"

definition check_exit_intent :: "string \<Rightarrow> bool" where
  "check_exit_intent message = any_keyword_in EXIT_KEYWORDS (strip (lower message))"

fun remove_tags :: "bool \<Rightarrow> string \<Rightarrow> string" where
  \<comment> \<open>\<open>re.sub(r'<[^>]*>', '', text)\<close>, left to right; the flag says that the scan is inside
      a match, between its \<open><\<close> and the first \<open>>\<close> after it\<close>
  "remove_tags in_tag [] = []"
| "remove_tags False (c # cs) =
     (if c = CHR ''<'' \<and> CHR ''>'' \<in> set cs then remove_tags True cs
      else c # remove_tags False cs)"
| "remove_tags True (c # cs) =
     (if c = CHR ''>'' then remove_tags False cs else remove_tags True cs)"

definition sanitize_input :: "string \<Rightarrow> string" where
  "sanitize_input text =
     (if text = [] then []
      else take 2000 (remove_tags False (join '' '' (split_ws text))))"

section \<open>The language-model gateway (llm_client.py)\<close>

type_synonym message = "string \<times> string"
  \<comment> \<open>a dictionary \<open>{"role": r, "content": c}\<close> as the pair \<open>(r, c)\<close>\<close>

text \<open>
  What the program takes from outside is collected in one record.  \<open>remote n msgs\<close> is the
  outcome of the \<open>n\<close>-th call of the chat-completion API on the message list \<open>msgs\<close>: the
  text of the first choice, or \<open>None\<close> when anything in the \<open>try\<close> block raises.
  \<open>list_of_set\<close> is Python's \<open>list(set(xs))\<close>.  Floating-point numbers are not computed
  with: \<open>float_ok s\<close> says that \<open>float(s)\<close> does not raise, \<open>float_lt s n\<close> is
  \<open>float(s) < n\<close> and \<open>float_str s\<close> is \<open>str(float(s))\<close>.  The three emoji fields are the
  one-character texts that open or close two of the canned replies.
\<close>

record env =
  remote :: "nat \<Rightarrow> message list \<Rightarrow> string option"
  list_of_set :: "string list \<Rightarrow> string list"
  float_ok :: "string \<Rightarrow> bool"
  float_lt :: "string \<Rightarrow> nat \<Rightarrow> bool"
  float_str :: "string \<Rightarrow> string"
  wave_emoji :: string
  party_emoji :: string
  clover_emoji :: string

definition SYSTEM_PROMPT :: string where
  "SYSTEM_PROMPT =
      ''You are a professional and friendly Hiring Assistant for TalentScout, \<newline>'' @
      ''a technology recruitment agency. Your role is to conduct initial candidate screening \<newline>'' @
      ''by gathering essential information and assessing technical proficiency.\<newline>'' @
      ''\<newline>'' @
      ''CORE RESPONSIBILITIES:\<newline>'' @
      ''1. Greet candidates warmly and explain your purpose\<newline>'' @
      ''2. Collect required information in a conversational manner\<newline>'' @
      ''3. Generate relevant technical questions based on the candidate's tech stack\<newline>'' @
      ''4. Maintain a professional yet approachable tone throughout\<newline>'' @
      ''\<newline>'' @
      ''STRICT GUIDELINES:\<newline>'' @
      ''- NEVER deviate from recruitment-related topics\<newline>'' @
      ''- NEVER provide technical answers or solutions to the questions you ask\<newline>'' @
      ''- NEVER share or discuss other candidates' information\<newline>'' @
      ''- ALWAYS validate information politely when unclear\<newline>'' @
      ''- ALWAYS maintain context from previous messages\<newline>'' @
      ''- ALWAYS be encouraging and supportive\<newline>'' @
      ''\<newline>'' @
      ''CONVERSATION STRUCTURE:\<newline>'' @
      ''1. Greeting Phase: Welcome the candidate and explain your purpose\<newline>'' @
      ''2. Information Gathering: Collect details naturally (name, email, phone, experience, position, location)\<newline>'' @
      ''3. Tech Stack Discussion: Understand their technical skills in depth\<newline>'' @
      ''4. Technical Assessment: Generate and ask relevant technical questions\<newline>'' @
      ''5. Conclusion: Thank them and explain next steps\<newline>'' @
      ''\<newline>'' @
      ''When generating technical questions:\<newline>'' @
      ''- Create 3-5 questions per technology mentioned\<newline>'' @
      ''- Include a mix of conceptual and practical questions\<newline>'' @
      ''- Progress from basic to advanced difficulty\<newline>'' @
      ''- Focus on real-world application scenarios\<newline>'' @
      ''- Cover best practices and common challenges\<newline>'' @
      ''\<newline>'' @
      ''If you detect any exit keywords (bye, goodbye, exit, quit, end, stop, thanks, that's all), \<newline>'' @
      ''gracefully conclude the conversation and provide next steps information.\<newline>'' @
      ''\<newline>'' @
      ''If the user asks something unrelated to the interview process, politely redirect \<newline>'' @
      ''them back to the screening process without being dismissive.''"

text \<open>
  The client object.  \<open>llm_history\<close> is the attribute \<open>conversation_history\<close> of
  \<open>LLMClient\<close> (the name is taken by the session state below).  Two fields record
  effects and are read by nothing in the program: \<open>api_calls\<close> counts the calls of the
  remote API, and \<open>slept\<close> lists the arguments of \<open>time.sleep\<close>, in seconds, in order.
\<close>

record llm_client =
  demo_mode :: bool
  llm_history :: "message list"
  api_calls :: nat
  slept :: "nat list"

definition get_demo_response :: "env \<Rightarrow> string \<Rightarrow> string" where
  "get_demo_response e prompt =
     (let prompt_lower = lower prompt in
      if substr_in ''greeting'' prompt_lower \<or> substr_in ''welcome'' prompt_lower then
        wave_emoji e @ '' Welcome to TalentScout! I'm your AI Hiring Assistant.\<newline>'' @
        ''\<newline>'' @
        ''I'm here to help with your initial screening for tech positions. This process will take about 5-10 minutes.\<newline>'' @
        ''\<newline>'' @
        ''**Note:** Running in DEMO MODE - Connect a valid API key for full AI capabilities.\<newline>'' @
        ''\<newline>'' @
        ''Let's get started! **What is your full name?**''
      else if substr_in ''technical'' prompt_lower \<or> substr_in ''question'' prompt_lower then
        ''Based on your tech stack, here are some technical questions:\<newline>'' @
        ''\<newline>'' @
        ''**Python:**\<newline>'' @
        ''1. Explain the difference between `list` and `tuple` in Python.\<newline>'' @
        ''2. What is a decorator and how would you use it?\<newline>'' @
        ''3. How does Python handle memory management?\<newline>'' @
        ''\<newline>'' @
        ''Please share your thoughts on these questions!''
      else if substr_in ''conclusion'' prompt_lower \<or> substr_in ''closing'' prompt_lower then
        party_emoji e @ '' Thank you for completing the screening process!\<newline>'' @
        ''\<newline>'' @
        ''**Next Steps:**\<newline>'' @
        ''- Our team will review your responses within 5-7 business days\<newline>'' @
        ''- If selected, you'll receive an email for the next interview round\<newline>'' @
        ''- For questions, contact us at hr@talentscout.com\<newline>'' @
        ''\<newline>'' @
        ''We appreciate your time and interest in TalentScout. Good luck! '' @ clover_emoji e
      else
        ''Thank you for your response! This is helpful information.\<newline>'' @
        ''\<newline>'' @
        ''Would you like to continue with the screening process?'')"

definition trim_history :: "message list \<Rightarrow> message list" where
  \<comment> \<open>"Keep history manageable": \<open>[h[0]] + h[-20:]\<close> when \<open>len(h) > 21\<close>\<close>
  "trim_history h = (if length h > 21 then hd h # drop (length h - 20) h else h)"

definition pop_failed_user :: "llm_client \<Rightarrow> llm_client" where
  \<comment> \<open>"Remove failed user message from history"\<close>
  "pop_failed_user c =
     (if llm_history c \<noteq> [] \<and> fst (last (llm_history c)) = ''user''
      then c\<lparr>llm_history := butlast (llm_history c)\<rparr> else c)"

function attempt_loop ::
  "env \<Rightarrow> string \<Rightarrow> string \<Rightarrow> nat \<Rightarrow> nat \<Rightarrow> llm_client \<Rightarrow> string \<times> llm_client" where
  "attempt_loop e prompt full_prompt max_retries attempt c =
     (if attempt < max_retries then
        (let c1 = c\<lparr>llm_history := llm_history c @ [(''user'', full_prompt)],
                      api_calls := Suc (api_calls c)\<rparr>
         in case remote e (api_calls c) (llm_history c1) of
              Some assistant_message \<Rightarrow>
                (assistant_message,
                 c1\<lparr>llm_history :=
                      trim_history (llm_history c1 @ [(''assistant'', assistant_message)])\<rparr>)
            | None \<Rightarrow>
                (let c2 = pop_failed_user c1 in
                 if attempt < max_retries - 1
                 then attempt_loop e prompt full_prompt max_retries (Suc attempt)
                        (c2\<lparr>slept := slept c2 @ [2 ^ attempt * 1]\<rparr>)
                 else (get_demo_response e prompt, c2)))
      else (get_demo_response e prompt, c))"
  by pat_completeness auto
termination
  by (relation "measure (\<lambda>(e, prompt, full_prompt, max_retries, attempt, c). max_retries - attempt)")
     auto

declare attempt_loop.simps [simp del]

definition generate_response ::
  "env \<Rightarrow> string \<Rightarrow> string option \<Rightarrow> nat \<Rightarrow> llm_client \<Rightarrow> string \<times> llm_client" where
  "generate_response e prompt context max_retries c =
     (if demo_mode c then (get_demo_response e prompt, c)
      else
        (let full_prompt =
               (case context of
                  None \<Rightarrow> prompt
                | Some ctx \<Rightarrow>
                    (if ctx = [] then prompt
                     else ''Context:\<newline>'' @ ctx @ ''\<newline>\<newline>Task:\<newline>'' @ prompt))
         in attempt_loop e prompt full_prompt max_retries 0 c))"

definition generate :: "env \<Rightarrow> string \<Rightarrow> llm_client \<Rightarrow> string \<times> llm_client" where
  \<comment> \<open>the call \<open>generate_response(prompt)\<close>, with the defaults \<open>context=None\<close> and
      \<open>max_retries=3\<close>; every caller in the program calls it so\<close>
  "generate e prompt c = generate_response e prompt None 3 c"

definition generate_with_history ::
  "env \<Rightarrow> string \<Rightarrow> message list \<Rightarrow> llm_client \<Rightarrow> string \<times> llm_client" where
  "generate_with_history e user_message conversation_history c = generate e user_message c"

definition generate_technical_questions ::
  "env \<Rightarrow> string list \<Rightarrow> string option \<Rightarrow> string \<Rightarrow> llm_client \<Rightarrow> string \<times> llm_client" where
  \<comment> \<open>\<open>experience_years\<close> is \<open>Some s\<close> for the float \<open>float(s)\<close> and \<open>None\<close> for the
      integer \<open>0\<close> of the caller's \<open>except\<close> branch\<close>
  "generate_technical_questions e tech_stack experience_years position c =
     (let lt = (\<lambda>n. case experience_years of None \<Rightarrow> 0 < n | Some s \<Rightarrow> float_lt e s n);
          (difficulty, focus) =
            (if lt 2 then
               (''entry-level to intermediate'',
                ''fundamental concepts, basic implementations, and learning ability'')
             else if lt 5 then
               (''intermediate to advanced'',
                ''practical application, problem-solving, and best practices'')
             else
               (''advanced to expert'',
                ''system design, architecture decisions, and technical leadership''));
          tech_list = join '', '' tech_stack;
          prompt =
            ''Generate technical interview questions for a candidate with the following profile:\<newline>'' @
            ''\<newline>'' @
            ''Technologies: '' @ tech_list @ ''\<newline>'' @
            ''Experience: '' @
            (case experience_years of None \<Rightarrow> ''0'' | Some s \<Rightarrow> float_str e s) @
            '' years\<newline>'' @
            ''Position: '' @ position @ ''\<newline>'' @
            ''Difficulty Level: '' @ difficulty @ ''\<newline>'' @
            ''Focus Areas: '' @ focus @ ''\<newline>'' @
            ''\<newline>'' @
            ''For each technology, generate 3-5 questions that:\<newline>'' @
            ''1. Test both theoretical understanding and practical knowledge\<newline>'' @
            ''2. Include at least one scenario-based question\<newline>'' @
            ''3. Cover common challenges and best practices\<newline>'' @
            ''4. Are progressively challenging\<newline>'' @
            ''\<newline>'' @
            ''Format the output clearly with technology headers and numbered questions.\<newline>'' @
            ''Make questions specific and relevant to real-world scenarios.''
      in generate e prompt c)"

definition generate_greeting :: "env \<Rightarrow> llm_client \<Rightarrow> string \<times> llm_client" where
  "generate_greeting e c =
     generate e
       (''Generate a warm, professional greeting for a new candidate starting \<newline>'' @
        ''the screening process. Include:\<newline>'' @
        ''1. Welcome to TalentScout\<newline>'' @
        ''2. Brief explanation of the screening purpose\<newline>'' @
        ''3. Ask for their name to begin\<newline>'' @
        ''\<newline>'' @
        ''Keep it concise (3-4 sentences), friendly, and professional.'') c"

definition generate_conclusion :: "env \<Rightarrow> string \<Rightarrow> llm_client \<Rightarrow> string \<times> llm_client" where
  "generate_conclusion e candidate_summary c =
     generate e
       (''The screening process is complete. Generate a professional closing message.\<newline>'' @
        ''\<newline>'' @
        ''Candidate Summary:\<newline>'' @
        candidate_summary @ ''\<newline>'' @
        ''\<newline>'' @
        ''Include:\<newline>'' @
        ''1. Thank them for their time\<newline>'' @
        ''2. Confirm their information has been recorded\<newline>'' @
        ''3. Explain next steps (review within 5-7 business days)\<newline>'' @
        ''4. Provide contact email: hr@talentscout.com\<newline>'' @
        ''5. End on a positive, encouraging note\<newline>'' @
        ''\<newline>'' @
        ''Keep it professional and warm.'') c"

definition reset_chat :: "llm_client \<Rightarrow> llm_client" where
  "reset_chat c = c\<lparr>llm_history := [(''system'', SYSTEM_PROMPT)]\<rparr>"

section \<open>The dialogue state machine (conversation_handler.py)\<close>

datatype ConversationPhase =
    GREETING
  | INFO_GATHERING
  | TECH_STACK
  | TECHNICAL_QUESTIONS
  | CONCLUSION
  | ENDED

datatype py_error = IndexError

text \<open>
  \<open>candidate_info\<close> is a dictionary from field names to texts.  It is an association list,
  in insertion order: \<open>AList.update\<close> overwrites the value of a key that is present and
  appends a new key at the end, as assignment to a Python dictionary does.
\<close>

record ConversationState =
  phase :: ConversationPhase
  candidate_info :: "(string \<times> string) list"
  current_field_index :: nat
  conversation_history :: "message list"
  tech_stack_parsed :: "string list"
  technical_questions_asked :: bool
  questions_generated :: string
  awaiting_validation :: "string option"

definition new_state :: ConversationState where
  \<comment> \<open>\<open>ConversationState()\<close>\<close>
  "new_state =
     \<lparr>phase = GREETING, candidate_info = [], current_field_index = 0,
      conversation_history = [], tech_stack_parsed = [],
      technical_questions_asked = False, questions_generated = [],
      awaiting_validation = None\<rparr>"

record ConversationHandler =
  llm :: llm_client
  state :: ConversationState

type_synonym reply = "py_error + (string \<times> bool)"
  \<comment> \<open>what a call gives back: the exception it raises, or \<open>(response, ended)\<close>\<close>

definition new_handler :: "llm_client \<Rightarrow> ConversationHandler" where
  \<comment> \<open>\<open>ConversationHandler(llm_client)\<close>\<close>
  "new_handler c = \<lparr>llm = c, state = new_state\<rparr>"

definition reset :: "ConversationHandler \<Rightarrow> ConversationHandler" where
  "reset h = \<lparr>llm = reset_chat (llm h), state = new_state\<rparr>"

definition FIELD_PROMPTS :: "(string \<times> string) list" where
  "FIELD_PROMPTS =
     [(''full_name'', ''What is your full name?''),
      (''email'', ''What is your email address?''),
      (''phone'', ''What is your phone number?''),
      (''years_of_experience'', ''How many years of professional experience do you have?''),
      (''desired_positions'', ''What position(s) are you interested in?''),
      (''current_location'', ''Where are you currently located?''),
      (''tech_stack'', ''Please tell me about your tech stack - including programming languages, frameworks, databases, and tools you're proficient in.'')]"

definition dict_get :: "(string \<times> string) list \<Rightarrow> string \<Rightarrow> string \<Rightarrow> string" where
  \<comment> \<open>\<open>d.get(key, default)\<close>\<close>
  "dict_get d key dflt = (case map_of d key of Some v \<Rightarrow> v | None \<Rightarrow> dflt)"

definition field_labels :: "(string \<times> string) list" where
  "field_labels =
     [(''full_name'', ''Full Name''),
      (''email'', ''Email Address''),
      (''phone'', ''Phone Number''),
      (''years_of_experience'', ''Years of Experience''),
      (''desired_positions'', ''Desired Position(s)''),
      (''current_location'', ''Current Location''),
      (''tech_stack'', ''Tech Stack'')]"

definition format_candidate_summary :: "(string \<times> string) list \<Rightarrow> string" where
  "format_candidate_summary info =
     (let rule = replicate 50 (CHR ''='');
          summary_lines =
            [rule, ''CANDIDATE SUMMARY'', rule] @
            map (\<lambda>(field, label). label @ '': '' @ dict_get info field ''Not provided'')
              field_labels @
            [rule]
      in join ''\<newline>'' summary_lines)"

definition format_conversation_for_llm :: "message list \<Rightarrow> string" where
  "format_conversation_for_llm messages =
     join ''\<newline>''
       (map (\<lambda>(role, content).
               (if role = ''user'' then ''Candidate'' else ''Assistant'') @ '': '' @ content)
          messages)"

definition add_to_history :: "string \<Rightarrow> string \<Rightarrow> ConversationHandler \<Rightarrow> ConversationHandler" where
  "add_to_history role content h =
     h\<lparr>state := (state h)\<lparr>conversation_history :=
          conversation_history (state h) @ [(role, content)]\<rparr>\<rparr>"

definition set_phase :: "ConversationPhase \<Rightarrow> ConversationHandler \<Rightarrow> ConversationHandler" where
  \<comment> \<open>\<open>self.state.phase = p\<close>\<close>
  "set_phase p h = h\<lparr>state := (state h)\<lparr>phase := p\<rparr>\<rparr>"

definition set_info :: "string \<Rightarrow> string \<Rightarrow> ConversationHandler \<Rightarrow> ConversationHandler" where
  \<comment> \<open>\<open>self.state.candidate_info[field] = v\<close>\<close>
  "set_info field v h =
     h\<lparr>state := (state h)\<lparr>candidate_info := AList.update field v (candidate_info (state h))\<rparr>\<rparr>"

definition get_initial_greeting :: "env \<Rightarrow> ConversationHandler \<Rightarrow> string \<times> ConversationHandler" where
  "get_initial_greeting e h =
     (let (greeting, c) = generate_greeting e (llm h);
          h1 = add_to_history ''assistant'' greeting (h\<lparr>llm := c\<rparr>);
          h2 = set_phase INFO_GATHERING h1
      in (greeting, h2))"

definition replace_underscores :: "string \<Rightarrow> string" where
  \<comment> \<open>\<open>field.replace('_', ' ')\<close>\<close>
  "replace_underscores s = map (\<lambda>c. if c = CHR ''_'' then CHR '' '' else c) s"

definition generate_field_prompt ::
  "env \<Rightarrow> string \<Rightarrow> string \<Rightarrow> ConversationHandler \<Rightarrow> string \<times> ConversationHandler" where
  \<open>generate_field_prompt e field previous_response h =
     (let field_question =
            dict_get FIELD_PROMPTS field (''Could you please provide your '' @ field @ ''?'');
          prompt =
            ''The candidate just told us: "'' @ previous_response @ ''"\<newline>'' @
            ''        \<newline>'' @
            ''Now we need to ask for their '' @ replace_underscores field @ ''.\<newline>'' @
            ''Generate a natural, conversational response that:\<newline>'' @
            ''1. Briefly acknowledges what they said\<newline>'' @
            ''2. Asks for: '' @ field_question @ ''\<newline>'' @
            ''\<newline>'' @
            ''Keep it friendly and concise (1-2 sentences).'';
          (response, c) = generate e prompt (llm h)
      in (response, h\<lparr>llm := c\<rparr>))\<close>

definition generate_validation_response :: "string \<Rightarrow> string \<Rightarrow> string" where
  "generate_validation_response field invalid_value =
     (if field = ''email'' then
        ''I notice the email '' @ [CHR 0x27] @ invalid_value @ [CHR 0x27] @
        '' might have a small typo. Could you please provide a valid email address? For example: name@example.com''
      else if field = ''phone'' then
        ''I'd like to make sure I have your correct phone number. Could you please provide it in a standard format? For example: +1234567890 or 123-456-7890''
      else ''Could you please provide a valid '' @ field @ ''?'')"

definition generate_tech_stack_prompt :: "ConversationHandler \<Rightarrow> string" where
  "generate_tech_stack_prompt h =
     (let name = dict_get (candidate_info (state h)) ''full_name'' ''there''
      in ''Thank you for sharing that information, '' @ name @
         ''! Now, let's talk about your technical skills. Please tell me about your tech stack - including the programming languages, frameworks, databases, and tools you're proficient in. The more detail you provide, the better I can assess your technical background.'')"

definition generate_conclusion_message ::
  "env \<Rightarrow> ConversationHandler \<Rightarrow> string \<times> ConversationHandler" where
  \<comment> \<open>the method \<open>_generate_conclusion\<close> of the handler\<close>
  "generate_conclusion_message e h =
     (let summary = format_candidate_summary (candidate_info (state h));
          (response, c) = generate_conclusion e summary (llm h)
      in (response, h\<lparr>llm := c\<rparr>))"

definition fields_to_collect :: "string list" where
  "fields_to_collect =
     [''full_name'', ''email'', ''phone'', ''years_of_experience'',
      ''desired_positions'', ''current_location'']"

definition ask_next_field :: "env \<Rightarrow> string \<Rightarrow> ConversationHandler \<Rightarrow> reply \<times> ConversationHandler" where
  \<comment> \<open>\<open>_handle_info_gathering\<close> from "Check if we have all basic info" on\<close>
  "ask_next_field e message h =
     (if current_field_index (state h) \<ge> length fields_to_collect then
        (let h1 = set_phase TECH_STACK h;
             response = generate_tech_stack_prompt h1;
             h2 = add_to_history ''assistant'' response h1
         in (Inr (response, False), h2))
      else
        (let current_field = fields_to_collect ! current_field_index (state h);
             h1 = h\<lparr>state := (state h)\<lparr>current_field_index :=
                      current_field_index (state h) + 1\<rparr>\<rparr>;
             (response, h2) = generate_field_prompt e current_field message h1;
             h3 = add_to_history ''assistant'' response h2
         in (Inr (response, False), h3)))"

definition handle_info_gathering ::
  "env \<Rightarrow> string \<Rightarrow> ConversationHandler \<Rightarrow> reply \<times> ConversationHandler" where
  "handle_info_gathering e message h =
     (if current_field_index (state h) > 0 then
        (if current_field_index (state h) - 1 \<ge> length fields_to_collect
         then (Inl IndexError, h)
         else
           (let prev_field = fields_to_collect ! (current_field_index (state h) - 1) in
            if prev_field = ''email'' \<and> \<not> validate_email message then
              (let response = generate_validation_response ''email'' message;
                   h1 = add_to_history ''assistant'' response h
               in (Inr (response, False), h1))
            else if prev_field = ''phone'' \<and> \<not> validate_phone message then
              (let response = generate_validation_response ''phone'' message;
                   h1 = add_to_history ''assistant'' response h
               in (Inr (response, False), h1))
            else if prev_field = ''years_of_experience'' then
              (case validate_experience message of
                 Some years \<Rightarrow> ask_next_field e message (set_info prev_field (float_str e years) h)
               | None \<Rightarrow> ask_next_field e message (set_info prev_field message h))
            else ask_next_field e message (set_info prev_field message h)))
      else
        ask_next_field e message
          ((set_info ''full_name'' message h)
             \<lparr>state := (state (set_info ''full_name'' message h))\<lparr>current_field_index := 1\<rparr>\<rparr>))"

definition handle_greeting ::
  "env \<Rightarrow> string \<Rightarrow> ConversationHandler \<Rightarrow> reply \<times> ConversationHandler" where
  "handle_greeting e message h = handle_info_gathering e message (set_phase INFO_GATHERING h)"

definition tech_stack_reprompt :: string where
  \<comment> \<open>the reply of \<open>_handle_tech_stack\<close> when no technology is found\<close>
  "tech_stack_reprompt =
     ''I'd like to understand your technical background better. Could you please specify the programming languages, frameworks, databases, or tools you work with? For example: Python, Django, PostgreSQL, Docker, etc.''"

definition handle_tech_stack ::
  "env \<Rightarrow> string \<Rightarrow> ConversationHandler \<Rightarrow> reply \<times> ConversationHandler" where
  "handle_tech_stack e message h =
     (let h1 = h\<lparr>state := (state h)\<lparr>tech_stack_parsed :=
                  parse_tech_stack (list_of_set e) message\<rparr>\<rparr>;
          h2 = set_info ''tech_stack'' message h1
      in if tech_stack_parsed (state h2) = [] then
           (let response = tech_stack_reprompt;
                h3 = add_to_history ''assistant'' response h2
            in (Inr (response, False), h3))
         else
           (let h3 = set_phase TECHNICAL_QUESTIONS h2;
                experience = dict_get (candidate_info (state h3)) ''years_of_experience'' ''0'';
                exp_years = (if float_ok e experience then Some experience else None);
                position =
                  dict_get (candidate_info (state h3)) ''desired_positions'' ''Software Developer'';
                (questions, c) =
                  generate_technical_questions e (tech_stack_parsed (state h3)) exp_years
                    position (llm h3);
                h4 = h3\<lparr>llm := c\<rparr>;
                h5 = h4\<lparr>state := (state h4)\<lparr>questions_generated := questions,
                                               technical_questions_asked := True\<rparr>\<rparr>;
                tech_list = join '', '' (tech_stack_parsed (state h5));
                response =
                  ''Excellent! I can see you have experience with '' @ tech_list @
                  ''. That's a great combination of skills!\<newline>'' @
                  ''\<newline>'' @
                  ''Now, I'd like to ask you some technical questions to better understand your proficiency. Please take your time with each question.\<newline>'' @
                  ''\<newline>'' @
                  questions @ ''\<newline>'' @
                  ''\<newline>'' @
                  ''Please share your thoughts on these questions. You can answer them in any order, or let me know if you'd like to discuss any particular topic in more detail.'';
                h6 = add_to_history ''assistant'' response h5
            in (Inr (response, False), h6)))"

definition conclusion_indicators :: "string list" where
  "conclusion_indicators =
     [''that's all'', ''done'', ''finished'', ''no more'', ''nothing else'',
      ''that covers'', ''i think that's it'', ''any questions about'']"

definition has_conclusion_indicator :: "string \<Rightarrow> bool" where
  \<comment> \<open>\<open>any(indicator in message.lower() for indicator in conclusion_indicators)\<close>\<close>
  "has_conclusion_indicator message =
     list_ex (\<lambda>indicator. substr_in indicator (lower message)) conclusion_indicators"

definition evaluation_prompt :: "string \<Rightarrow> string \<Rightarrow> string" where
  \<comment> \<open>the prompt that \<open>_handle_technical_questions\<close> sends for an evaluative reply\<close>
  "evaluation_prompt context message =
            ''The candidate has provided responses to technical questions.\<newline>'' @
            ''        \<newline>'' @
            ''Previous context:\<newline>'' @
            context @ ''\<newline>'' @
            ''\<newline>'' @
            ''Their latest response: '' @ message @ ''\<newline>'' @
            ''\<newline>'' @
            ''Evaluate their response professionally:\<newline>'' @
            ''1. Acknowledge their answer briefly\<newline>'' @
            ''2. If they answered well, provide positive feedback\<newline>'' @
            ''3. If they want to discuss more or have questions, engage appropriately\<newline>'' @
            ''4. After sufficient technical discussion, ask if they have any questions about the role or company\<newline>'' @
            ''\<newline>'' @
            ''Keep the response concise and professional. Do not provide detailed answers or solutions.''"

definition handle_technical_questions ::
  "env \<Rightarrow> string \<Rightarrow> ConversationHandler \<Rightarrow> reply \<times> ConversationHandler" where
  "handle_technical_questions e message h =
     (let hist = conversation_history (state h);
          context = format_conversation_for_llm (drop (length hist - 6) hist);
          prompt = evaluation_prompt context message;
          (response, c) = generate e prompt (llm h);
          h1 = h\<lparr>llm := c\<rparr>
      in if has_conclusion_indicator message then
           (let h2 = set_phase CONCLUSION h1;
                (conclusion_response, h3) = generate_conclusion_message e h2;
                h4 = add_to_history ''assistant'' conclusion_response h3
            in (Inr (conclusion_response, False), h4))
         else
           (let h2 = add_to_history ''assistant'' response h1
            in (Inr (response, False), h2)))"

definition handle_exit :: "env \<Rightarrow> ConversationHandler \<Rightarrow> string \<times> ConversationHandler" where
  "handle_exit e h =
     (let h1 = set_phase ENDED h;
          summary = format_candidate_summary (candidate_info (state h1));
          (conclusion, c) = generate_conclusion e summary (llm h1);
          h2 = add_to_history ''assistant'' conclusion (h1\<lparr>llm := c\<rparr>)
      in (conclusion, h2))"

definition handle_conclusion ::
  "env \<Rightarrow> string \<Rightarrow> ConversationHandler \<Rightarrow> reply \<times> ConversationHandler" where
  "handle_conclusion e message h =
     (if check_exit_intent message then
        (let (conclusion, h1) = handle_exit e h in (Inr (conclusion, True), h1))
      else
        (let (response, c) =
               generate e
                 (''The candidate said: '' @ [CHR 0x27] @ message @ [CHR 0x27] @
                  ''. Respond briefly and professionally, then remind them that their application is complete and they can type 'bye' to end.'')
                 (llm h);
             h1 = add_to_history ''assistant'' response (h\<lparr>llm := c\<rparr>)
         in (Inr (response, False), h1)))"

definition handle_fallback ::
  "env \<Rightarrow> string \<Rightarrow> ConversationHandler \<Rightarrow> reply \<times> ConversationHandler" where
  "handle_fallback e message h =
     (let (response, c) =
            generate_with_history e message (conversation_history (state h)) (llm h);
          h1 = add_to_history ''assistant'' response (h\<lparr>llm := c\<rparr>)
      in (Inr (response, False), h1))"

definition process_message ::
  "env \<Rightarrow> string \<Rightarrow> ConversationHandler \<Rightarrow> reply \<times> ConversationHandler" where
  "process_message e raw_message h =
     (let user_message = sanitize_input raw_message in
      if user_message = [] then
        (Inr (''I didn't quite catch that. Could you please try again?'', False), h)
      else
        (let h1 = add_to_history ''user'' user_message h in
         if check_exit_intent user_message then
           (let (conclusion, h2) = handle_exit e h1 in (Inr (conclusion, True), h2))
         else
           (case phase (state h1) of
              GREETING \<Rightarrow> handle_greeting e user_message h1
            | INFO_GATHERING \<Rightarrow> handle_info_gathering e user_message h1
            | TECH_STACK \<Rightarrow> handle_tech_stack e user_message h1
            | TECHNICAL_QUESTIONS \<Rightarrow> handle_technical_questions e user_message h1
            | CONCLUSION \<Rightarrow> handle_conclusion e user_message h1
            | ENDED \<Rightarrow> handle_fallback e user_message h1)))"

definition get_candidate_info :: "ConversationHandler \<Rightarrow> (string \<times> string) list" where
  "get_candidate_info h = candidate_info (state h)"

definition get_conversation_history :: "ConversationHandler \<Rightarrow> message list" where
  "get_conversation_history h = conversation_history (state h)"

definition get_current_phase :: "ConversationHandler \<Rightarrow> ConversationPhase" where
  "get_current_phase h = phase (state h)"

definition is_ended :: "ConversationHandler \<Rightarrow> bool" where
  "is_ended h = (phase (state h) = ENDED)"

section \<open>The chat page (app.py)\<close>

record saved_record =
  candidate_id :: string
  submission_timestamp :: string
  saved_candidate_info :: "(string \<times> string) list"
  saved_conversation_history :: "message list"
  data_handling_notice :: string

type_synonym file_store = "string \<Rightarrow> saved_record option"
  \<comment> \<open>the JSON files on disk, by path\<close>

definition save_candidate_data ::
  "string \<Rightarrow> string \<Rightarrow> (string \<times> string) list \<Rightarrow> message list \<Rightarrow> string \<Rightarrow> file_store
     \<Rightarrow> string \<times> file_store" where
  \<comment> \<open>\<open>stamp\<close> and \<open>iso_time\<close> are the two readings of the clock,
      \<open>datetime.now().strftime("%Y%m%d_%H%M%S")\<close> and \<open>datetime.now().isoformat()\<close>\<close>
  "save_candidate_data stamp iso_time info history output_dir fs =
     (let cid = ''candidate_'' @ stamp;
          data = \<lparr>candidate_id = cid, submission_timestamp = iso_time,
                  saved_candidate_info = info, saved_conversation_history = history,
                  data_handling_notice = ''This data is collected for recruitment purposes only.''\<rparr>;
          filepath = output_dir @ ''/'' @ cid @ ''.json''
      in (filepath, fs(filepath \<mapsto> data)))"

datatype notice = Success string | Warning string
  \<comment> \<open>\<open>st.sidebar.success\<close> with the path saved to, \<open>st.sidebar.warning\<close> with its text\<close>

record app_state =
  conversation_handler :: ConversationHandler
  messages :: "message list"
  initialized :: bool
  conversation_ended :: bool
  files :: file_store
  sidebar :: "notice list"

definition initialize_session_state :: "llm_client \<Rightarrow> file_store \<Rightarrow> app_state" where
  \<comment> \<open>the session state of a new browser session, over the files on disk\<close>
  "initialize_session_state c fs =
     \<lparr>conversation_handler = new_handler c, messages = [], initialized = False,
      conversation_ended = False, files = fs, sidebar = []\<rparr>"

definition export_conversation :: "string \<Rightarrow> string \<Rightarrow> app_state \<Rightarrow> app_state" where
  "export_conversation stamp iso_time app =
     (let handler = conversation_handler app;
          info = get_candidate_info handler;
          history = get_conversation_history handler
      in if info \<noteq> [] then
           (let (filepath, fs) =
                  save_candidate_data stamp iso_time info history ''candidate_data'' (files app)
            in app\<lparr>files := fs, sidebar := sidebar app @ [Success filepath]\<rparr>)
         else app\<lparr>sidebar := sidebar app @ [Warning ''No data to export yet'']\<rparr>)"

definition start_conversation :: "env \<Rightarrow> app_state \<Rightarrow> app_state" where
  "start_conversation e app =
     (let (greeting, h) = get_initial_greeting e (conversation_handler app)
      in app\<lparr>conversation_handler := h,
              messages := messages app @ [(''assistant'', greeting)],
              initialized := True\<rparr>)"

definition chat_input ::
  "env \<Rightarrow> string \<Rightarrow> string \<Rightarrow> string \<Rightarrow> app_state \<Rightarrow> py_error option \<times> app_state" where
  \<comment> \<open>\<open>render_chat_interface\<close> when the user submits \<open>prompt\<close>; the result says whether
      \<open>process_message\<close> raised\<close>
  "chat_input e stamp iso_time prompt app =
     (if \<not> initialized app then (None, app)
      else if conversation_ended app then (None, app)
      else if prompt = [] then (None, app)
      else
        (let app1 = app\<lparr>messages := messages app @ [(''user'', prompt)]\<rparr>;
             (r, h) = process_message e prompt (conversation_handler app1);
             app2 = app1\<lparr>conversation_handler := h\<rparr>
         in case r of
              Inl err \<Rightarrow> (Some err, app2)
            | Inr (response, ended) \<Rightarrow>
                (let app3 = app2\<lparr>messages := messages app2 @ [(''assistant'', response)]\<rparr>
                 in if ended
                    then (None, export_conversation stamp iso_time (app3\<lparr>conversation_ended := True\<rparr>))
                    else (None, app3))))"

definition ended_of :: "reply \<Rightarrow> bool option" where
  \<comment> \<open>the flag \<open>ended\<close> of a returned pair \<open>(response, ended)\<close>; \<open>None\<close> when the call raised\<close>
  "ended_of r = (case r of Inl err \<Rightarrow> None | Inr (response, ended) \<Rightarrow> Some ended)"

section \<open>Notions used in the statements\<close>

fun phase_rank :: "ConversationPhase \<Rightarrow> nat" where
  \<comment> \<open>the position of a phase in the order of the class \<open>ConversationPhase\<close>\<close>
  "phase_rank GREETING = 0"
| "phase_rank INFO_GATHERING = 1"
| "phase_rank TECH_STACK = 2"
| "phase_rank TECHNICAL_QUESTIONS = 3"
| "phase_rank CONCLUSION = 4"
| "phase_rank ENDED = 5"

definition run_messages :: "env \<Rightarrow> string list \<Rightarrow> ConversationHandler \<Rightarrow> ConversationHandler" where
  \<comment> \<open>the session after \<open>process_message\<close> has been called on each message in turn\<close>
  "run_messages e ms h = foldl (\<lambda>h m. snd (process_message e m h)) h ms"

definition feed_answers :: "env \<Rightarrow> string list \<Rightarrow> ConversationHandler \<Rightarrow> ConversationHandler" where
  \<comment> \<open>the session after \<open>_handle_info_gathering\<close> has been called on each answer in turn\<close>
  "feed_answers e ms h = foldl (\<lambda>h m. snd (handle_info_gathering e m h)) h ms"

definition stored_answer :: "env \<Rightarrow> string \<Rightarrow> string \<Rightarrow> string" where
  \<comment> \<open>what \<open>_handle_info_gathering\<close> stores for an accepted answer to a field\<close>
  "stored_answer e field m =
     (if field = ''years_of_experience''
      then (case validate_experience m of Some years \<Rightarrow> float_str e years | None \<Rightarrow> m)
      else m)"

definition exchange_ok :: "env \<Rightarrow> string \<Rightarrow> llm_client \<Rightarrow> bool" where
  \<comment> \<open>a successful exchange: one of the three attempts that \<open>generate_response(prompt)\<close>
      makes from client \<open>c\<close> in online mode gets an answer\<close>
  "exchange_ok e prompt c =
     list_ex (\<lambda>k. remote e (api_calls c + k) (llm_history c @ [(''user'', prompt)]) \<noteq> None)
       [0, 1, 2]"

definition exchanges :: "env \<Rightarrow> string list \<Rightarrow> llm_client \<Rightarrow> llm_client" where
  \<comment> \<open>the client after \<open>generate_response\<close> has been called on each prompt in turn\<close>
  "exchanges e prompts c = foldl (\<lambda>c p. snd (generate e p c)) c prompts"

fun successful_exchanges :: "env \<Rightarrow> string list \<Rightarrow> llm_client \<Rightarrow> nat" where
  \<comment> \<open>how many of these calls are successful exchanges\<close>
  "successful_exchanges e [] c = 0"
| "successful_exchanges e (p # ps) c =
     (if exchange_ok e p c then 1 else 0) + successful_exchanges e ps (snd (generate e p c))"

definition evaluation_context :: "ConversationHandler \<Rightarrow> string" where
  \<comment> \<open>the \<open>context\<close> of \<open>_handle_technical_questions\<close>: the last six turns, formatted\<close>
  "evaluation_context h =
     format_conversation_for_llm
       (drop (length (conversation_history (state h)) - 6) (conversation_history (state h)))"

definition conc :: "string set \<Rightarrow> string set \<Rightarrow> string set" where
  "conc A B = {u @ v | u v. u \<in> A \<and> v \<in> B}"

inductive_set star :: "string set \<Rightarrow> string set" for A :: "string set" where
  star_empty: "[] \<in> star A"
| star_step: "u \<in> A \<Longrightarrow> v \<in> star A \<Longrightarrow> u @ v \<in> star A"

fun lang :: "rexp \<Rightarrow> string set" where
  \<comment> \<open>the strings that a regular expression denotes\<close>
  "lang Nul = {}"
| "lang Eps = {[]}"
| "lang (Sym P) = {[c] | c. P c}"
| "lang (Alt r s) = lang r \<union> lang s"
| "lang (Seq r s) = conc (lang r) (lang s)"
| "lang (Rep r) = star (lang r)"

definition word_char :: "char \<Rightarrow> bool" where
  \<comment> \<open>the class \<open>\w\<close>, read on ASCII: a letter, a digit or the underscore\<close>
  "word_char c = (is_ascii_letter c \<or> is_ascii_digit c \<or> c = CHR ''_'')"

definition spec_email_pattern :: rexp where
  \<comment> \<open>the expression of the specification, \<open>[\w.+-]+@[\w.-]+\.[A-Za-z]{2,}\<close>\<close>
  "spec_email_pattern =
     Seq (one_or_more (Sym (\<lambda>c. word_char c \<or> c \<in> set ''.+-'')))
    (Seq (Sym (\<lambda>c. c = CHR ''@''))
    (Seq (one_or_more (Sym (\<lambda>c. word_char c \<or> c \<in> set ''.-'')))
    (Seq (Sym (\<lambda>c. c = CHR ''.''))
    (Seq (exactly 2 (Sym is_ascii_letter)) (Rep (Sym is_ascii_letter))))))"

definition amended_email_pattern :: rexp where
  \<comment> \<open>the same expression without the underscore in the domain part,
      \<open>[\w.+-]+@[A-Za-z0-9.-]+\.[A-Za-z]{2,}\<close>\<close>
  "amended_email_pattern =
     Seq (one_or_more (Sym (\<lambda>c. word_char c \<or> c \<in> set ''.+-'')))
    (Seq (Sym (\<lambda>c. c = CHR ''@''))
    (Seq (one_or_more (Sym (\<lambda>c. is_ascii_letter c \<or> is_ascii_digit c \<or> c \<in> set ''.-'')))
    (Seq (Sym (\<lambda>c. c = CHR ''.''))
    (Seq (exactly 2 (Sym is_ascii_letter)) (Rep (Sym is_ascii_letter))))))"

definition has_final_label :: "string \<Rightarrow> bool" where
  \<comment> \<open>the text has a dot, and what follows its last dot is two or more letters\<close>
  "has_final_label t =
     (let label = rev (takeWhile (\<lambda>c. c \<noteq> CHR ''.'') (rev t))
      in CHR ''.'' \<in> set t \<and> 2 \<le> length label \<and> list_all is_ascii_letter label)"

definition normalized :: "string \<Rightarrow> string" where
  \<comment> \<open>how \<open>parse_tech_stack\<close> writes a known technology that it finds\<close>
  "normalized tech = (if length tech > 3 then title tech else upper tech)"

section \<open>Sample environments\<close>

text \<open>
  Two environments and two clients on which the functions above can be run.  In
  \<open>offline_env\<close> every call of the remote API fails; in \<open>online_env\<close> every call answers
  \<open>OK\<close>.  The iteration order of a set is taken to be the order of insertion, and the
  floating-point functions handle plain decimal texts.
\<close>

definition digits_value :: "string \<Rightarrow> nat" where
  "digits_value s = foldl (\<lambda>n c. 10 * n + ((of_char c :: nat) - 48)) 0 s"

definition offline_env :: env where
  "offline_env =
     \<lparr>remote = (\<lambda>n msgs. None),
      list_of_set = remdups,
      float_ok = (\<lambda>s. first_number s = Some s),
      float_lt = (\<lambda>s n. digits_value (takeWhile is_ascii_digit s) < n),
      float_str = (\<lambda>s. if CHR ''.'' \<in> set s then s else s @ ''.0''),
      wave_emoji = ''(wave)'',
      party_emoji = ''(party)'',
      clover_emoji = ''(clover)''\<rparr>"

definition online_env :: env where
  "online_env = offline_env\<lparr>remote := (\<lambda>n msgs. Some ''OK'')\<rparr>"

definition demo_client :: llm_client where
  \<comment> \<open>a client constructed without a valid API key\<close>
  "demo_client = \<lparr>demo_mode = True, llm_history = [], api_calls = 0, slept = []\<rparr>"

definition connected_client :: llm_client where
  \<comment> \<open>a client whose construction reached the API\<close>
  "connected_client =
     \<lparr>demo_mode = False, llm_history = [(''system'', SYSTEM_PROMPT)], api_calls = 0, slept = []\<rparr>"

definition ada_app :: app_state where
  \<comment> \<open>a started chat page whose session has collected the name only\<close>
  "ada_app =
     (initialize_session_state demo_client (\<lambda>p. None))
       \<lparr>conversation_handler := set_info ''full_name'' ''Ada'' (new_handler demo_client),
        initialized := True\<rparr>"

section \<open>Substring search and the exit-intent detector\<close>

lemma starts_with_iff: "starts_with s k \<longleftrightarrow> (\<exists>q. s = k @ q)"
  by (induction s k rule: starts_with.induct) auto

lemma substr_in_iff: "substr_in k s \<longleftrightarrow> (\<exists>p q. s = p @ k @ q)"
proof (induction s)
  case Nil
  then show ?case by auto
next
  case (Cons c cs)
  show ?case
  proof
    assume "substr_in k (c # cs)"
    then consider "starts_with (c # cs) k" | "substr_in k cs" by auto
    then show "\<exists>p q. c # cs = p @ k @ q"
    proof cases
      case 1
      then obtain q where "c # cs = k @ q" by (auto simp: starts_with_iff)
      then have "c # cs = [] @ k @ q" by simp
      then show ?thesis by blast
    next
      case 2
      then obtain p q where "cs = p @ k @ q" using Cons.IH by blast
      then have "c # cs = (c # p) @ k @ q" by simp
      then show ?thesis by blast
    qed
  next
    assume "\<exists>p q. c # cs = p @ k @ q"
    then obtain p q where pq: "c # cs = p @ k @ q" by blast
    show "substr_in k (c # cs)"
    proof (cases p)
      case Nil
      with pq have "starts_with (c # cs) k" by (auto simp: starts_with_iff)
      then show ?thesis by simp
    next
      case (Cons a p')
      with pq have "cs = p' @ k @ q" by simp
      then have "substr_in k cs" using Cons.IH by blast
      then show ?thesis by simp
    qed
  qed
qed

lemma any_keyword_in_iff: "any_keyword_in ks s \<longleftrightarrow> (\<exists>k\<in>set ks. substr_in k s)"
  by (induction ks) auto

lemma dropWhile_keeps_infix:
  assumes "k \<noteq> []" "\<not> P (hd k)"
  shows "\<exists>p'. dropWhile P (p @ k @ q) = p' @ k @ q"
proof (cases "\<forall>x\<in>set p. P x")
  case True
  then have "dropWhile P (p @ k @ q) = dropWhile P (k @ q)"
    by (simp add: dropWhile_append)
  also have "\<dots> = k @ q" using assms by (cases k) auto
  finally have "dropWhile P (p @ k @ q) = [] @ k @ q" by simp
  then show ?thesis by blast
next
  case False
  then have "dropWhile P (p @ k @ q) = dropWhile P p @ k @ q"
    by (metis dropWhile_append1)
  then show ?thesis by blast
qed

lemma strip_keeps_infix:
  assumes "k \<noteq> []" "\<not> is_space (hd k)" "\<not> is_space (last k)"
  shows "\<exists>p' q'. strip (p @ k @ q) = p' @ k @ q'"
proof -
  obtain p' where p': "dropWhile is_space (p @ k @ q) = p' @ k @ q"
    using dropWhile_keeps_infix[of k is_space p q] assms by blast
  have rk: "rev k \<noteq> []" "\<not> is_space (hd (rev k))"
    using assms by (auto simp: hd_rev)
  obtain q' where q': "dropWhile is_space (rev q @ rev k @ rev p') = q' @ rev k @ rev p'"
    using dropWhile_keeps_infix[of "rev k" is_space "rev q" "rev p'"] rk by blast
  have "strip (p @ k @ q) = rev (q' @ rev k @ rev p')"
    using p' q' by (simp add: strip_def)
  then have "strip (p @ k @ q) = p' @ k @ rev q'" by simp
  then show ?thesis by blast
qed

lemma lower_append: "lower (a @ b) = lower a @ lower b"
  by (simp add: lower_def)

lemma check_exit_intent_iff:
  "check_exit_intent m \<longleftrightarrow> (\<exists>k\<in>set EXIT_KEYWORDS. \<exists>p q. strip (lower m) = p @ k @ q)"
  by (simp add: check_exit_intent_def any_keyword_in_iff substr_in_iff)

lemma exit_on_keyword:
  assumes "k \<in> set EXIT_KEYWORDS" "lower k = k" "k \<noteq> []"
    "\<not> is_space (hd k)" "\<not> is_space (last k)"
  shows "check_exit_intent (p @ k @ q)"
proof -
  have "\<exists>p' q'. strip (lower p @ k @ lower q) = p' @ k @ q'"
    using assms(3-5) by (rule strip_keeps_infix)
  then have "\<exists>p' q'. strip (lower (p @ k @ q)) = p' @ k @ q'"
    using assms(2) by (simp only: lower_append)
  then show ?thesis unfolding check_exit_intent_iff using assms(1) by blast
qed

lemma exit_on_end: "check_exit_intent (p @ ''end'' @ q)"
  by (rule exit_on_keyword)
     (simp_all add: EXIT_KEYWORDS_def lower_def lower_char_def is_space_def)

lemma exit_on_thanks: "check_exit_intent (p @ ''thanks'' @ q)"
  by (rule exit_on_keyword)
     (simp_all add: EXIT_KEYWORDS_def lower_def lower_char_def is_space_def)

lemma phase_handle_exit: "phase (state (snd (handle_exit e h))) = ENDED"
  by (simp add: handle_exit_def set_phase_def add_to_history_def split: prod.splits)

lemma process_message_exit:
  assumes "sanitize_input raw \<noteq> []" "check_exit_intent (sanitize_input raw)"
  shows "process_message e raw h =
     (Inr (fst (handle_exit e (add_to_history ''user'' (sanitize_input raw) h)), True),
      snd (handle_exit e (add_to_history ''user'' (sanitize_input raw) h)))"
  using assms by (simp add: process_message_def Let_def split: prod.splits)

text \<open>
  Claim C10.  \<open>check_exit_intent\<close> is true exactly when the lower-cased, stripped message
  has one of the configured exit keywords as a substring, wherever it occurs: a message
  with \<open>end\<close> inside a longer word (\<open>attended\<close>, \<open>weekend\<close>) or with \<open>thanks\<close> has exit
  intent, and a message with exit intent ends the session from any phase, with
  \<open>ended = True\<close>.
\<close>

theorem check_exit_intent_is_substring_scan:
  "(check_exit_intent message \<longleftrightarrow>
      (\<exists>k\<in>set EXIT_KEYWORDS. \<exists>p q. strip (lower message) = p @ k @ q))
   \<and> check_exit_intent (p @ ''end'' @ q)
   \<and> check_exit_intent (p @ ''thanks'' @ q)
   \<and> check_exit_intent ''attended''
   \<and> check_exit_intent ''weekend''
   \<and> (sanitize_input raw \<noteq> [] \<and> check_exit_intent (sanitize_input raw) \<longrightarrow>
        phase (state (snd (process_message e raw h))) = ENDED
        \<and> ended_of (fst (process_message e raw h)) = Some True)"
proof -
  have "check_exit_intent (''att'' @ ''end'' @ ''ed'')" by (rule exit_on_end)
  then have a: "check_exit_intent ''attended''" by simp
  have "check_exit_intent (''week'' @ ''end'' @ [])" by (rule exit_on_end)
  then have b: "check_exit_intent ''weekend''" by simp
  have c: "phase (state (snd (process_message e raw h))) = ENDED
        \<and> ended_of (fst (process_message e raw h)) = Some True"
    if "sanitize_input raw \<noteq> []" "check_exit_intent (sanitize_input raw)"
    using that by (simp add: process_message_exit phase_handle_exit ended_of_def)
  show ?thesis
    using a b c check_exit_intent_iff[of message] exit_on_end[of p q] exit_on_thanks[of p q]
    by blast
qed

theorem check_exit_intent_is_substring_scan_witness:
  "check_exit_intent ''Thanks, I attended the weekend course''
   \<and> sanitize_input ''I attended the weekend course'' \<noteq> []
   \<and> check_exit_intent (sanitize_input ''I attended the weekend course'')
   \<and> phase (state (snd (process_message offline_env ''I attended the weekend course''
        (new_handler demo_client)))) = ENDED
   \<and> ended_of (fst (process_message offline_env ''I attended the weekend course''
        (new_handler demo_client))) = Some True"
proof -
  have s: "sanitize_input ''I attended the weekend course'' = ''I attended the weekend course''"
    by code_simp
  have x: "check_exit_intent (''I att'' @ ''end'' @ ''ed the weekend course'')"
    by (rule exit_on_end)
  note t = check_exit_intent_is_substring_scan
      [of "''Thanks, I attended the weekend course''" "''Thanks, I att''" "''ed the weekend course''"
          "''I attended the weekend course''" offline_env "new_handler demo_client"]
  have a: "check_exit_intent (''Thanks, I att'' @ ''end'' @ ''ed the weekend course'')"
    using t by blast
  have b: "sanitize_input ''I attended the weekend course'' \<noteq> []
     \<and> check_exit_intent (sanitize_input ''I attended the weekend course'')"
    using s x by simp
  have c: "phase (state (snd (process_message offline_env ''I attended the weekend course''
        (new_handler demo_client)))) = ENDED
   \<and> ended_of (fst (process_message offline_env ''I attended the weekend course''
        (new_handler demo_client))) = Some True"
    using t b by blast
  show ?thesis using a b c by simp
qed

section \<open>Phases of the dialogue\<close>

lemma state_generate_field_prompt:
  "state (snd (generate_field_prompt e f m h)) = state h"
  by (simp add: generate_field_prompt_def Let_def case_prod_beta)

lemma state_generate_conclusion_message:
  "state (snd (generate_conclusion_message e h)) = state h"
  by (simp add: generate_conclusion_message_def Let_def case_prod_beta)

lemma state_ask_next_field:
  "state (snd (ask_next_field e m h)) =
     (if current_field_index (state h) \<ge> length fields_to_collect
      then (state h)\<lparr>phase := TECH_STACK,
             conversation_history := conversation_history (state h) @
               [(''assistant'', generate_tech_stack_prompt (set_phase TECH_STACK h))]\<rparr>
      else (state h)\<lparr>current_field_index := current_field_index (state h) + 1,
             conversation_history := conversation_history (state h) @
               [(''assistant'',
                 fst (generate_field_prompt e
                        (fields_to_collect ! current_field_index (state h)) m
                        (h\<lparr>state := (state h)\<lparr>current_field_index :=
                              current_field_index (state h) + 1\<rparr>\<rparr>)))]\<rparr>)"
  by (simp add: ask_next_field_def Let_def case_prod_beta set_phase_def add_to_history_def
        state_generate_field_prompt)

lemma phase_ask_next_field:
  "phase (state (snd (ask_next_field e m h))) =
     (if current_field_index (state h) \<ge> length fields_to_collect then TECH_STACK
      else phase (state h))"
  by (simp add: state_ask_next_field)

lemma phase_set_info [simp]: "phase (state (set_info f v h)) = phase (state h)"
  by (simp add: set_info_def)

lemma phase_add_to_history [simp]: "phase (state (add_to_history r c h)) = phase (state h)"
  by (simp add: add_to_history_def)

lemma phase_set_phase [simp]: "phase (state (set_phase p h)) = p"
  by (simp add: set_phase_def)

lemma phase_handle_info_gathering:
  "phase (state (snd (handle_info_gathering e m h))) = phase (state h)
   \<or> phase (state (snd (handle_info_gathering e m h))) = TECH_STACK"
  by (simp add: handle_info_gathering_def Let_def phase_ask_next_field split: option.splits)

lemma phase_handle_tech_stack:
  "phase (state (snd (handle_tech_stack e m h))) =
     (if parse_tech_stack (list_of_set e) m = [] then phase (state h) else TECHNICAL_QUESTIONS)"
  by (simp add: handle_tech_stack_def Let_def case_prod_beta set_info_def set_phase_def
        add_to_history_def)

lemma phase_handle_technical_questions:
  "phase (state (snd (handle_technical_questions e m h))) =
     (if has_conclusion_indicator m then CONCLUSION else phase (state h))"
  by (simp add: handle_technical_questions_def Let_def case_prod_beta
        state_generate_conclusion_message set_phase_def add_to_history_def)

lemma phase_handle_conclusion:
  "phase (state (snd (handle_conclusion e m h))) =
     (if check_exit_intent m then ENDED else phase (state h))"
  by (simp add: handle_conclusion_def Let_def case_prod_beta phase_handle_exit)

lemma phase_handle_fallback:
  "phase (state (snd (handle_fallback e m h))) = phase (state h)"
  by (simp add: handle_fallback_def Let_def case_prod_beta)

lemma phase_handle_greeting:
  "phase (state (snd (handle_greeting e m h))) = INFO_GATHERING
   \<or> phase (state (snd (handle_greeting e m h))) = TECH_STACK"
  using phase_handle_info_gathering[of e m "set_phase INFO_GATHERING h"]
  by (simp add: handle_greeting_def)

lemma process_message_forward:
  "phase_rank (phase (state h)) \<le> phase_rank (phase (state (snd (process_message e m h))))"
proof (cases "sanitize_input m = []")
  case True
  then show ?thesis by (simp add: process_message_def)
next
  case ne: False
  show ?thesis
  proof (cases "check_exit_intent (sanitize_input m)")
    case True
    then show ?thesis using ne
      by (cases "phase (state h)") (simp_all add: process_message_def Let_def case_prod_beta phase_handle_exit)
  next
    case False
    let ?h1 = "add_to_history ''user'' (sanitize_input m) h"
    have p1: "phase (state ?h1) = phase (state h)" by simp
    show ?thesis
    proof (cases "phase (state h)")
      case GREETING
      then show ?thesis using ne False by simp
    next
      case INFO_GATHERING
      then show ?thesis using ne False phase_handle_info_gathering[of e "sanitize_input m" ?h1]
        by (auto simp: process_message_def Let_def)
    next
      case TECH_STACK
      then show ?thesis using ne False
        by (simp add: process_message_def Let_def phase_handle_tech_stack)
    next
      case TECHNICAL_QUESTIONS
      then show ?thesis using ne False
        by (simp add: process_message_def Let_def phase_handle_technical_questions)
    next
      case CONCLUSION
      then show ?thesis using ne False
        by (simp add: process_message_def Let_def phase_handle_conclusion)
    next
      case ENDED
      then show ?thesis using ne False
        by (simp add: process_message_def Let_def phase_handle_fallback)
    qed
  qed
qed

lemma run_messages_forward:
  "phase_rank (phase (state h)) \<le> phase_rank (phase (state (run_messages e ms h)))"
proof (induction ms arbitrary: h)
  case Nil
  then show ?case by (simp add: run_messages_def)
next
  case (Cons m ms)
  have "phase_rank (phase (state h)) \<le> phase_rank (phase (state (snd (process_message e m h))))"
    by (rule process_message_forward)
  also have "\<dots> \<le> phase_rank (phase (state (run_messages e ms (snd (process_message e m h)))))"
    by (rule Cons.IH)
  finally show ?case by (simp add: run_messages_def)
qed

lemma run_messages_append:
  "run_messages e (xs @ ys) h = run_messages e ys (run_messages e xs h)"
  by (simp add: run_messages_def)

lemma run_messages_prefix_forward:
  assumes "i \<le> j"
  shows "phase_rank (phase (state (run_messages e (take i ms) h)))
       \<le> phase_rank (phase (state (run_messages e (take j ms) h)))"
proof -
  have "take j ms = take i ms @ drop i (take j ms)"
    using assms by (metis append_take_drop_id min.absorb1 take_take)
  then have "run_messages e (take j ms) h =
      run_messages e (drop i (take j ms)) (run_messages e (take i ms) h)"
    by (metis run_messages_append)
  then show ?thesis by (simp add: run_messages_forward)
qed

lemma process_message_one_step:
  assumes "\<not> check_exit_intent (sanitize_input m)"
    "phase (state h) = GREETING \<longrightarrow> current_field_index (state h) < 6"
  shows "phase_rank (phase (state (snd (process_message e m h)))) \<le> Suc (phase_rank (phase (state h)))"
proof (cases "sanitize_input m = []")
  case True
  then show ?thesis by (simp add: process_message_def)
next
  case ne: False
  let ?h1 = "add_to_history ''user'' (sanitize_input m) h"
  show ?thesis
  proof (cases "phase (state h)")
    case GREETING
    then have "current_field_index (state h) < 6" using assms by simp
    then have "phase (state (snd (handle_greeting e (sanitize_input m) ?h1))) = INFO_GATHERING"
      by (auto simp: handle_greeting_def handle_info_gathering_def Let_def phase_ask_next_field
          fields_to_collect_def set_info_def set_phase_def add_to_history_def split: option.splits)
    then show ?thesis using GREETING ne assms by (simp add: process_message_def Let_def)
  next
    case INFO_GATHERING
    then show ?thesis using ne assms phase_handle_info_gathering[of e "sanitize_input m" ?h1]
      by (auto simp: process_message_def Let_def)
  next
    case TECH_STACK
    then show ?thesis using ne assms
      by (simp add: process_message_def Let_def phase_handle_tech_stack)
  next
    case TECHNICAL_QUESTIONS
    then show ?thesis using ne assms
      by (simp add: process_message_def Let_def phase_handle_technical_questions)
  next
    case CONCLUSION
    then show ?thesis using ne assms
      by (simp add: process_message_def Let_def phase_handle_conclusion)
  next
    case ENDED
    then show ?thesis using ne assms
      by (simp add: process_message_def Let_def phase_handle_fallback)
  qed
qed

text \<open>
  Claim C7.  Over any sequence of \<open>process_message\<close> calls on one session the phase never
  moves backward in the order greeting, info_gathering, tech_stack, technical_questions,
  conclusion, ended.  A message with exit intent takes the session to \<open>ended\<close> from any
  phase; a message without exit intent moves it forward by one phase at most.
\<close>

theorem phase_only_moves_forward:
  "(\<forall>i j. i \<le> j \<longrightarrow>
        phase_rank (phase (state (run_messages e (take i ms) h)))
      \<le> phase_rank (phase (state (run_messages e (take j ms) h))))
   \<and> (sanitize_input m \<noteq> [] \<and> check_exit_intent (sanitize_input m) \<longrightarrow>
        phase (state (snd (process_message e m h))) = ENDED)
   \<and> (\<not> check_exit_intent (sanitize_input m')
        \<and> (phase (state h) = GREETING \<longrightarrow> current_field_index (state h) < 6) \<longrightarrow>
        phase_rank (phase (state (snd (process_message e m' h))))
          \<le> Suc (phase_rank (phase (state h))))"
proof (intro conjI allI impI)
  fix i j :: nat
  assume "i \<le> j"
  then show "phase_rank (phase (state (run_messages e (take i ms) h)))
      \<le> phase_rank (phase (state (run_messages e (take j ms) h)))"
    by (rule run_messages_prefix_forward)
next
  assume "sanitize_input m \<noteq> [] \<and> check_exit_intent (sanitize_input m)"
  then show "phase (state (snd (process_message e m h))) = ENDED"
    by (simp add: process_message_exit phase_handle_exit)
next
  assume "\<not> check_exit_intent (sanitize_input m')
        \<and> (phase (state h) = GREETING \<longrightarrow> current_field_index (state h) < 6)"
  then show "phase_rank (phase (state (snd (process_message e m' h))))
          \<le> Suc (phase_rank (phase (state h)))"
    by (simp add: process_message_one_step)
qed

theorem phase_only_moves_forward_witness:
  "(1::nat) \<le> 2
   \<and> phase_rank (phase (state (run_messages offline_env
          (take 1 [''Ada Lovelace'', ''bye'']) (new_handler demo_client))))
     \<le> phase_rank (phase (state (run_messages offline_env
          (take 2 [''Ada Lovelace'', ''bye'']) (new_handler demo_client))))
   \<and> sanitize_input ''bye'' \<noteq> [] \<and> check_exit_intent (sanitize_input ''bye'')
   \<and> phase (state (snd (process_message offline_env ''bye'' (new_handler demo_client)))) = ENDED
   \<and> \<not> check_exit_intent (sanitize_input ''hello'')
   \<and> phase (state (new_handler demo_client)) = GREETING
   \<and> current_field_index (state (new_handler demo_client)) < 6
   \<and> phase_rank (phase (state (snd (process_message offline_env ''hello''
          (new_handler demo_client)))))
     \<le> Suc (phase_rank (phase (state (new_handler demo_client))))"
proof -
  note t = phase_only_moves_forward
      [of offline_env "[''Ada Lovelace'', ''bye'']" "new_handler demo_client" "''bye''" "''hello''"]
  have a: "sanitize_input ''bye'' \<noteq> [] \<and> check_exit_intent (sanitize_input ''bye'')"
    by code_simp
  have b: "\<not> check_exit_intent (sanitize_input ''hello'')"
    by code_simp
  have c: "phase (state (new_handler demo_client)) = GREETING
     \<and> current_field_index (state (new_handler demo_client)) < 6"
    by (simp add: new_handler_def new_state_def)
  have d: "(1::nat) \<le> 2" by simp
  show ?thesis using t a b c d by blast
qed

section \<open>Information gathering\<close>

lemma ended_ask_next_field: "ended_of (fst (ask_next_field e m h)) = Some False"
  by (simp add: ask_next_field_def Let_def case_prod_beta ended_of_def)

lemma state_set_info:
  "state (set_info f v h) = (state h)\<lparr>candidate_info := AList.update f v (candidate_info (state h))\<rparr>"
  by (simp add: set_info_def)

lemma info_gathering_first:
  assumes "current_field_index (state h) = 0"
  shows "current_field_index (state (snd (handle_info_gathering e m h))) = 2"
    and "phase (state (snd (handle_info_gathering e m h))) = phase (state h)"
    and "candidate_info (state (snd (handle_info_gathering e m h))) =
           AList.update ''full_name'' m (candidate_info (state h))"
    and "ended_of (fst (handle_info_gathering e m h)) = Some False"
  using assms
  by (simp_all add: handle_info_gathering_def state_ask_next_field ended_ask_next_field
        state_set_info fields_to_collect_def)

lemma info_gathering_accept:
  assumes "current_field_index (state h) = k" "0 < k" "k \<le> 6"
    and "k = 2 \<longrightarrow> validate_email m" "k = 3 \<longrightarrow> validate_phone m"
  shows "current_field_index (state (snd (handle_info_gathering e m h))) = (if k = 6 then 6 else k + 1)"
    and "phase (state (snd (handle_info_gathering e m h))) = (if k = 6 then TECH_STACK else phase (state h))"
    and "candidate_info (state (snd (handle_info_gathering e m h))) =
           AList.update (fields_to_collect ! (k - 1)) (stored_answer e (fields_to_collect ! (k - 1)) m)
             (candidate_info (state h))"
    and "ended_of (fst (handle_info_gathering e m h)) = Some False"
proof -
  from assms(2,3) consider "k = 1" | "k = 2" | "k = 3" | "k = 4" | "k = 5" | "k = 6" by linarith
  then have "current_field_index (state (snd (handle_info_gathering e m h))) = (if k = 6 then 6 else k + 1)
    \<and> phase (state (snd (handle_info_gathering e m h))) = (if k = 6 then TECH_STACK else phase (state h))
    \<and> candidate_info (state (snd (handle_info_gathering e m h))) =
           AList.update (fields_to_collect ! (k - 1)) (stored_answer e (fields_to_collect ! (k - 1)) m)
             (candidate_info (state h))
    \<and> ended_of (fst (handle_info_gathering e m h)) = Some False"
    using assms(1,4,5)
    by cases
       (simp_all add: handle_info_gathering_def state_ask_next_field ended_ask_next_field
          state_set_info fields_to_collect_def stored_answer_def Let_def split: option.splits)
  then show "current_field_index (state (snd (handle_info_gathering e m h))) = (if k = 6 then 6 else k + 1)"
    and "phase (state (snd (handle_info_gathering e m h))) = (if k = 6 then TECH_STACK else phase (state h))"
    and "candidate_info (state (snd (handle_info_gathering e m h))) =
           AList.update (fields_to_collect ! (k - 1)) (stored_answer e (fields_to_collect ! (k - 1)) m)
             (candidate_info (state h))"
    and "ended_of (fst (handle_info_gathering e m h)) = Some False"
    by blast+
qed

lemma info_gathering_reject_email:
  assumes "current_field_index (state h) = 2" "\<not> validate_email bad"
  shows "handle_info_gathering e bad h =
     (Inr (generate_validation_response ''email'' bad, False),
      add_to_history ''assistant'' (generate_validation_response ''email'' bad) h)"
  using assms by (simp add: handle_info_gathering_def fields_to_collect_def Let_def)

lemma state_get_initial_greeting:
  "state (snd (get_initial_greeting e h)) =
     (state h)\<lparr>phase := INFO_GATHERING,
        conversation_history := conversation_history (state h) @
          [(''assistant'', fst (generate_greeting e (llm h)))]\<rparr>"
  by (simp add: get_initial_greeting_def Let_def case_prod_beta add_to_history_def set_phase_def)

text \<open>
  Claim C1.  From a fresh session that has sent its greeting (phase info_gathering), six
  answers fed to \<open>_handle_info_gathering\<close> in order, the second a valid email and the third
  a valid phone number, leave the phase at info_gathering after each of the first five and
  move it to tech_stack when the sixth (current_location) is accepted, with the six fields
  stored.  An answer that fails \<open>validate_email\<close> at the email step gets the validation
  reply for emails, and phase, \<open>current_field_index\<close> and the stored fields stay as they
  were.
\<close>

theorem info_gathering_round_trip:
  assumes "validate_email m2" "validate_phone m3"
  shows "phase (state (snd (get_initial_greeting e (new_handler c)))) = INFO_GATHERING
   \<and> (\<forall>k<6. phase (state (feed_answers e (take k [m1, m2, m3, m4, m5, m6])
                 (snd (get_initial_greeting e (new_handler c))))) = INFO_GATHERING)
   \<and> phase (state (feed_answers e [m1, m2, m3, m4, m5, m6]
                 (snd (get_initial_greeting e (new_handler c))))) = TECH_STACK
   \<and> candidate_info (state (feed_answers e [m1, m2, m3, m4, m5, m6]
                 (snd (get_initial_greeting e (new_handler c))))) =
        [(''full_name'', m1), (''email'', m2), (''phone'', m3),
         (''years_of_experience'',
            case validate_experience m4 of Some years \<Rightarrow> float_str e years | None \<Rightarrow> m4),
         (''desired_positions'', m5), (''current_location'', m6)]
   \<and> (\<forall>bad. \<not> validate_email bad \<longrightarrow>
         fst (handle_info_gathering e bad
               (feed_answers e [m1] (snd (get_initial_greeting e (new_handler c))))) =
           Inr (generate_validation_response ''email'' bad, False)
         \<and> phase (state (snd (handle_info_gathering e bad
               (feed_answers e [m1] (snd (get_initial_greeting e (new_handler c))))))) = INFO_GATHERING
         \<and> current_field_index (state (snd (handle_info_gathering e bad
               (feed_answers e [m1] (snd (get_initial_greeting e (new_handler c))))))) =
             current_field_index (state
               (feed_answers e [m1] (snd (get_initial_greeting e (new_handler c)))))
         \<and> candidate_info (state (snd (handle_info_gathering e bad
               (feed_answers e [m1] (snd (get_initial_greeting e (new_handler c))))))) =
             candidate_info (state
               (feed_answers e [m1] (snd (get_initial_greeting e (new_handler c))))))"
proof -
  define h0 where "h0 = snd (get_initial_greeting e (new_handler c))"
  define h1 where "h1 = snd (handle_info_gathering e m1 h0)"
  define h2 where "h2 = snd (handle_info_gathering e m2 h1)"
  define h3 where "h3 = snd (handle_info_gathering e m3 h2)"
  define h4 where "h4 = snd (handle_info_gathering e m4 h3)"
  define h5 where "h5 = snd (handle_info_gathering e m5 h4)"
  define h6 where "h6 = snd (handle_info_gathering e m6 h5)"
  have s0: "phase (state h0) = INFO_GATHERING" "current_field_index (state h0) = 0"
    "candidate_info (state h0) = []"
    by (simp_all add: h0_def state_get_initial_greeting new_handler_def new_state_def)
  have s1: "phase (state h1) = INFO_GATHERING" "current_field_index (state h1) = 2"
    "candidate_info (state h1) = [(''full_name'', m1)]"
    unfolding h1_def using info_gathering_first[OF s0(2), of e m1] s0 by simp_all
  have s2: "phase (state h2) = INFO_GATHERING" "current_field_index (state h2) = 3"
    "candidate_info (state h2) = [(''full_name'', m1), (''email'', m2)]"
    unfolding h2_def using info_gathering_accept[OF s1(2), of m2 e] s1 assms
    by (simp_all add: fields_to_collect_def stored_answer_def)
  have s3: "phase (state h3) = INFO_GATHERING" "current_field_index (state h3) = 4"
    "candidate_info (state h3) = [(''full_name'', m1), (''email'', m2), (''phone'', m3)]"
    unfolding h3_def using info_gathering_accept[OF s2(2), of m3 e] s2 assms
    by (simp_all add: fields_to_collect_def stored_answer_def)
  have s4: "phase (state h4) = INFO_GATHERING" "current_field_index (state h4) = 5"
    "candidate_info (state h4) = [(''full_name'', m1), (''email'', m2), (''phone'', m3),
       (''years_of_experience'',
          case validate_experience m4 of Some years \<Rightarrow> float_str e years | None \<Rightarrow> m4)]"
    unfolding h4_def using info_gathering_accept[OF s3(2), of m4 e] s3
    by (simp_all add: fields_to_collect_def stored_answer_def)
  have s5: "phase (state h5) = INFO_GATHERING" "current_field_index (state h5) = 6"
    "candidate_info (state h5) = [(''full_name'', m1), (''email'', m2), (''phone'', m3),
       (''years_of_experience'',
          case validate_experience m4 of Some years \<Rightarrow> float_str e years | None \<Rightarrow> m4),
       (''desired_positions'', m5)]"
    unfolding h5_def using info_gathering_accept[OF s4(2), of m5 e] s4
    by (simp_all add: fields_to_collect_def stored_answer_def)
  have s6: "phase (state h6) = TECH_STACK"
    "candidate_info (state h6) = [(''full_name'', m1), (''email'', m2), (''phone'', m3),
       (''years_of_experience'',
          case validate_experience m4 of Some years \<Rightarrow> float_str e years | None \<Rightarrow> m4),
       (''desired_positions'', m5), (''current_location'', m6)]"
    unfolding h6_def using info_gathering_accept[OF s5(2), of m6 e] s5
    by (simp_all add: fields_to_collect_def stored_answer_def)
  have f: "feed_answers e [] h0 = h0" "feed_answers e [m1] h0 = h1"
    "feed_answers e [m1, m2] h0 = h2" "feed_answers e [m1, m2, m3] h0 = h3"
    "feed_answers e [m1, m2, m3, m4] h0 = h4" "feed_answers e [m1, m2, m3, m4, m5] h0 = h5"
    "feed_answers e [m1, m2, m3, m4, m5, m6] h0 = h6"
    by (simp_all add: feed_answers_def h1_def h2_def h3_def h4_def h5_def h6_def)
  have before: "phase (state (feed_answers e (take k [m1, m2, m3, m4, m5, m6]) h0)) = INFO_GATHERING"
    if "k < 6" for k
  proof -
    from that consider "k = 0" | "k = 1" | "k = 2" | "k = 3" | "k = 4" | "k = 5" by linarith
    then show ?thesis
      by cases (simp_all add: f s0 s1 s2 s3 s4 s5)
  qed
  have reject: "fst (handle_info_gathering e bad h1) =
           Inr (generate_validation_response ''email'' bad, False)
         \<and> phase (state (snd (handle_info_gathering e bad h1))) = INFO_GATHERING
         \<and> current_field_index (state (snd (handle_info_gathering e bad h1))) =
             current_field_index (state h1)
         \<and> candidate_info (state (snd (handle_info_gathering e bad h1))) =
             candidate_info (state h1)"
    if "\<not> validate_email bad" for bad
    using info_gathering_reject_email[OF s1(2) that, of e] s1
    by (simp add: add_to_history_def)
  show ?thesis
    unfolding h0_def[symmetric] f
    using s0(1) before s6 reject by blast
qed

theorem info_gathering_round_trip_witness:
  "validate_email ''a@b.co'' \<and> validate_phone ''1234567890''
   \<and> phase (state (feed_answers offline_env
        [''Ada'', ''a@b.co'', ''1234567890'', ''5 years'', ''Engineer'', ''London'']
        (snd (get_initial_greeting offline_env (new_handler demo_client))))) = TECH_STACK
   \<and> \<not> validate_email ''a@b''
   \<and> fst (handle_info_gathering offline_env ''a@b''
          (feed_answers offline_env [''Ada'']
             (snd (get_initial_greeting offline_env (new_handler demo_client))))) =
        Inr (generate_validation_response ''email'' ''a@b'', False)
   \<and> candidate_info (state (snd (handle_info_gathering offline_env ''a@b''
          (feed_answers offline_env [''Ada'']
             (snd (get_initial_greeting offline_env (new_handler demo_client))))))) =
       candidate_info (state (feed_answers offline_env [''Ada'']
             (snd (get_initial_greeting offline_env (new_handler demo_client)))))"
proof -
  have a: "validate_email ''a@b.co''" by code_simp
  have b: "validate_phone ''1234567890''" by code_simp
  have c: "\<not> validate_email ''a@b''" by code_simp
  note t = info_gathering_round_trip
      [OF a b, of offline_env demo_client "''Ada''" "''5 years''" "''Engineer''" "''London''"]
  show ?thesis using t a b c by blast
qed

section \<open>Retries and the conversation buffer of the gateway\<close>

lemma pop_failed_user_appended:
  "pop_failed_user (c\<lparr>llm_history := llm_history c @ [(''user'', p)], api_calls := n\<rparr>) =
     c\<lparr>llm_history := llm_history c, api_calls := n\<rparr>"
  by (simp add: pop_failed_user_def)

lemma attempt_loop_step:
  "attempt_loop e prompt full_prompt max_retries attempt c =
     (if attempt < max_retries then
        (case remote e (api_calls c) (llm_history c @ [(''user'', full_prompt)]) of
           Some a \<Rightarrow>
             (a, c\<lparr>llm_history :=
                     trim_history (llm_history c @ [(''user'', full_prompt), (''assistant'', a)]),
                   api_calls := Suc (api_calls c)\<rparr>)
         | None \<Rightarrow>
             (if attempt < max_retries - 1
              then attempt_loop e prompt full_prompt max_retries (Suc attempt)
                     (c\<lparr>api_calls := Suc (api_calls c), slept := slept c @ [2 ^ attempt]\<rparr>)
              else (get_demo_response e prompt, c\<lparr>api_calls := Suc (api_calls c)\<rparr>)))
      else (get_demo_response e prompt, c))"
  by (subst attempt_loop.simps)
     (simp add: Let_def pop_failed_user_def split: option.splits)

lemma attempt_loop_third:
  "attempt_loop e prompt full_prompt 3 (Suc (Suc 0)) c =
     (case remote e (api_calls c) (llm_history c @ [(''user'', full_prompt)]) of
        Some a \<Rightarrow>
          (a, c\<lparr>llm_history :=
                  trim_history (llm_history c @ [(''user'', full_prompt), (''assistant'', a)]),
                api_calls := Suc (api_calls c)\<rparr>)
      | None \<Rightarrow> (get_demo_response e prompt, c\<lparr>api_calls := Suc (api_calls c)\<rparr>))"
  by (subst attempt_loop_step) (simp split: option.splits)

lemma attempt_loop_second:
  "attempt_loop e prompt full_prompt 3 (Suc 0) c =
     (case remote e (api_calls c) (llm_history c @ [(''user'', full_prompt)]) of
        Some a \<Rightarrow>
          (a, c\<lparr>llm_history :=
                  trim_history (llm_history c @ [(''user'', full_prompt), (''assistant'', a)]),
                api_calls := Suc (api_calls c)\<rparr>)
      | None \<Rightarrow>
          attempt_loop e prompt full_prompt 3 (Suc (Suc 0))
            (c\<lparr>api_calls := Suc (api_calls c), slept := slept c @ [2]\<rparr>))"
  by (subst attempt_loop_step) (simp split: option.splits)

lemma attempt_loop_first:
  "attempt_loop e prompt full_prompt 3 0 c =
     (case remote e (api_calls c) (llm_history c @ [(''user'', full_prompt)]) of
        Some a \<Rightarrow>
          (a, c\<lparr>llm_history :=
                  trim_history (llm_history c @ [(''user'', full_prompt), (''assistant'', a)]),
                api_calls := Suc (api_calls c)\<rparr>)
      | None \<Rightarrow>
          attempt_loop e prompt full_prompt 3 (Suc 0)
            (c\<lparr>api_calls := Suc (api_calls c), slept := slept c @ [1]\<rparr>))"
  by (subst attempt_loop_step) (simp split: option.splits)

lemma generate_online:
  assumes "\<not> demo_mode c"
  shows "generate e prompt c =
     (let msgs = llm_history c @ [(''user'', prompt)] in
      case remote e (api_calls c) msgs of
        Some a \<Rightarrow>
          (a, c\<lparr>llm_history := trim_history (msgs @ [(''assistant'', a)]),
                api_calls := api_calls c + 1\<rparr>)
      | None \<Rightarrow>
         (case remote e (api_calls c + 1) msgs of
            Some a \<Rightarrow>
              (a, c\<lparr>llm_history := trim_history (msgs @ [(''assistant'', a)]),
                    api_calls := api_calls c + 2, slept := slept c @ [1]\<rparr>)
          | None \<Rightarrow>
             (case remote e (api_calls c + 2) msgs of
                Some a \<Rightarrow>
                  (a, c\<lparr>llm_history := trim_history (msgs @ [(''assistant'', a)]),
                        api_calls := api_calls c + 3, slept := slept c @ [1, 2]\<rparr>)
              | None \<Rightarrow>
                  (get_demo_response e prompt,
                   c\<lparr>api_calls := api_calls c + 3, slept := slept c @ [1, 2]\<rparr>))))"
  using assms
  by (simp add: generate_def generate_response_def Let_def
        attempt_loop_first attempt_loop_second attempt_loop_third split: option.splits)

lemma generate_demo: "demo_mode c \<Longrightarrow> generate e prompt c = (get_demo_response e prompt, c)"
  by (simp add: generate_def generate_response_def)

lemma demo_mode_generate: "demo_mode (snd (generate e prompt c)) = demo_mode c"
proof (cases "demo_mode c")
  case True
  then show ?thesis by (simp add: generate_demo)
next
  case False
  then show ?thesis by (simp add: generate_online Let_def split: option.splits)
qed

lemma generate_all_fail:
  assumes "\<not> demo_mode c"
    "\<forall>k<3. remote e (api_calls c + k) (llm_history c @ [(''user'', prompt)]) = None"
  shows "generate e prompt c =
     (get_demo_response e prompt, c\<lparr>api_calls := api_calls c + 3, slept := slept c @ [1, 2]\<rparr>)"
proof -
  have "remote e (api_calls c) (llm_history c @ [(''user'', prompt)]) = None"
    "remote e (api_calls c + 1) (llm_history c @ [(''user'', prompt)]) = None"
    "remote e (api_calls c + 2) (llm_history c @ [(''user'', prompt)]) = None"
    using assms(2)[rule_format, of 0] assms(2)[rule_format, of 1] assms(2)[rule_format, of 2]
    by simp_all
  then show ?thesis using assms(1) by (simp add: generate_online Let_def)
qed

lemma history_generate_ok:
  assumes "\<not> demo_mode c" "exchange_ok e prompt c"
  shows "llm_history (snd (generate e prompt c)) =
     trim_history (llm_history c @
       [(''user'', prompt), (''assistant'', fst (generate e prompt c))])"
  using assms
  by (auto simp: generate_online Let_def exchange_ok_def split: option.splits)

lemma history_generate_fail:
  assumes "\<not> demo_mode c" "\<not> exchange_ok e prompt c"
  shows "llm_history (snd (generate e prompt c)) = llm_history c"
  using assms
  by (auto simp: generate_online Let_def exchange_ok_def split: option.splits)

lemma trim_history_extend:
  assumes "h \<noteq> []" "length h \<le> 21"
  shows "length (trim_history (h @ [u, a])) = min 21 (length h + 2)"
    and "hd (trim_history (h @ [u, a])) = hd h"
    and "trim_history (h @ [u, a]) \<noteq> []"
  using assms by (auto simp: trim_history_def)

lemma exchanges_bound:
  assumes "\<not> demo_mode c" "llm_history c \<noteq> []" "length (llm_history c) \<le> 21"
  shows "length (llm_history (exchanges e ps c)) =
           min 21 (length (llm_history c) + 2 * successful_exchanges e ps c)
       \<and> hd (llm_history (exchanges e ps c)) = hd (llm_history c)"
  using assms
proof (induction ps arbitrary: c)
  case Nil
  then show ?case by (simp add: exchanges_def)
next
  case (Cons p ps)
  let ?c = "snd (generate e p c)"
  have d: "\<not> demo_mode ?c" using Cons.prems(1) by (simp add: demo_mode_generate)
  have ex: "exchanges e (p # ps) c = exchanges e ps ?c" by (simp add: exchanges_def)
  show ?case
  proof (cases "exchange_ok e p c")
    case True
    then have h: "llm_history ?c = trim_history (llm_history c @
         [(''user'', p), (''assistant'', fst (generate e p c))])"
      using Cons.prems(1) by (simp add: history_generate_ok)
    have l: "length (llm_history ?c) = min 21 (length (llm_history c) + 2)"
      and hd: "hd (llm_history ?c) = hd (llm_history c)"
      and ne: "llm_history ?c \<noteq> []"
      unfolding h using trim_history_extend[OF Cons.prems(2,3)] by blast+
    have le: "length (llm_history ?c) \<le> 21" using l by simp
    show ?thesis
      using Cons.IH[OF d ne le] True l hd by (simp add: ex)
  next
    case False
    then have h: "llm_history ?c = llm_history c"
      using Cons.prems(1) by (simp add: history_generate_fail)
    show ?thesis
      using Cons.IH[OF d] Cons.prems(2,3) False h by (simp add: ex)
  qed
qed

lemma all_succeed:
  assumes "\<forall>n msgs. remote e n msgs \<noteq> None" "\<not> demo_mode c"
  shows "successful_exchanges e ps c = length ps"
  using assms(2)
proof (induction ps arbitrary: c)
  case Nil
  then show ?case by simp
next
  case (Cons p ps)
  have "exchange_ok e p c" using assms(1) by (simp add: exchange_ok_def)
  moreover have "\<not> demo_mode (snd (generate e p c))" using Cons.prems by (simp add: demo_mode_generate)
  ultimately show ?case using Cons.IH by simp
qed

lemma offline_remote: "remote offline_env n msgs = None"
  by (simp add: offline_env_def)

lemma online_remote: "remote online_env n msgs = Some ''OK''"
  by (simp add: online_env_def offline_env_def)

lemma connected_not_demo: "\<not> demo_mode connected_client"
  by (simp add: connected_client_def)

text \<open>
  Claim C4, as amended.  \<open>generate_response(prompt)\<close> always returns a text.  In demo mode
  it is the canned reply.  In online mode at most three calls of the remote API are made;
  after a failed attempt the user turn just appended is gone from the buffer, so that the
  buffer ends either unchanged or extended by one user turn and the answer; the waits
  between attempts are 1s after the first failure and 2s after the second, and no wait
  follows the third; when all three attempts fail the canned reply for the prompt is
  returned, the buffer is as before the call, and \<open>demo_mode\<close> stays false.
\<close>

theorem generate_response_retry_policy:
  "(demo_mode d \<longrightarrow> generate e prompt d = (get_demo_response e prompt, d))
   \<and> (\<not> demo_mode c \<longrightarrow>
        api_calls (snd (generate e prompt c)) \<le> api_calls c + 3
      \<and> \<not> demo_mode (snd (generate e prompt c))
      \<and> slept (snd (generate e prompt c)) \<in> {slept c, slept c @ [1], slept c @ [1, 2]}
      \<and> (llm_history (snd (generate e prompt c)) = llm_history c
          \<or> llm_history (snd (generate e prompt c)) =
               trim_history (llm_history c @
                 [(''user'', prompt), (''assistant'', fst (generate e prompt c))]))
      \<and> ((\<forall>k<3. remote e (api_calls c + k) (llm_history c @ [(''user'', prompt)]) = None) \<longrightarrow>
            generate e prompt c =
              (get_demo_response e prompt,
               c\<lparr>api_calls := api_calls c + 3, slept := slept c @ [1, 2]\<rparr>)))"
proof (intro conjI impI)
  assume "demo_mode d"
  then show "generate e prompt d = (get_demo_response e prompt, d)" by (rule generate_demo)
next
  assume c: "\<not> demo_mode c"
  then show "api_calls (snd (generate e prompt c)) \<le> api_calls c + 3"
    by (simp add: generate_online Let_def split: option.splits)
  from c show "\<not> demo_mode (snd (generate e prompt c))" by (simp add: demo_mode_generate)
  from c show "slept (snd (generate e prompt c)) \<in> {slept c, slept c @ [1], slept c @ [1, 2]}"
    by (simp add: generate_online Let_def split: option.splits)
  from c show "llm_history (snd (generate e prompt c)) = llm_history c
          \<or> llm_history (snd (generate e prompt c)) =
               trim_history (llm_history c @
                 [(''user'', prompt), (''assistant'', fst (generate e prompt c))])"
    using history_generate_ok[of c e prompt] history_generate_fail[of c e prompt] by blast
  assume "\<forall>k<3. remote e (api_calls c + k) (llm_history c @ [(''user'', prompt)]) = None"
  with c show "generate e prompt c =
              (get_demo_response e prompt,
               c\<lparr>api_calls := api_calls c + 3, slept := slept c @ [1, 2]\<rparr>)"
    by (rule generate_all_fail)
qed

theorem generate_response_backoff_counterexample:
  "\<not> demo_mode connected_client
   \<and> slept connected_client = []
   \<and> api_calls (snd (generate offline_env ''hello'' connected_client)) = 3
   \<and> slept (snd (generate offline_env ''hello'' connected_client)) = [1, 2]
   \<and> slept (snd (generate offline_env ''hello'' connected_client)) \<noteq> [1, 2, 4]"
  by (simp add: generate_online[OF connected_not_demo] offline_remote Let_def)
     (simp add: connected_client_def)

theorem generate_response_retry_policy_witness:
  "demo_mode demo_client
   \<and> generate offline_env ''hello'' demo_client = (get_demo_response offline_env ''hello'', demo_client)
   \<and> \<not> demo_mode connected_client
   \<and> remote offline_env (api_calls connected_client + 0)
        (llm_history connected_client @ [(''user'', ''hello'')]) = None
   \<and> remote offline_env (api_calls connected_client + 1)
        (llm_history connected_client @ [(''user'', ''hello'')]) = None
   \<and> remote offline_env (api_calls connected_client + 2)
        (llm_history connected_client @ [(''user'', ''hello'')]) = None
   \<and> generate offline_env ''hello'' connected_client =
        (get_demo_response offline_env ''hello'',
         connected_client\<lparr>api_calls := api_calls connected_client + 3,
                           slept := slept connected_client @ [1, 2]\<rparr>)
   \<and> \<not> demo_mode (snd (generate offline_env ''hello'' connected_client))"
proof -
  note t = generate_response_retry_policy[of demo_client offline_env "''hello''" connected_client]
  have a: "demo_mode demo_client" by (simp add: demo_client_def)
  have b: "\<forall>k<3. remote offline_env (api_calls connected_client + k)
        (llm_history connected_client @ [(''user'', ''hello'')]) = None"
    by (simp add: offline_remote)
  show ?thesis using t a b connected_not_demo offline_remote by blast
qed

text \<open>
  Claim C6.  After a successful exchange in online mode the buffer is the old buffer with
  the user turn and the answer appended, cut down to its first entry and its last 20
  entries when that is longer than 21.  Hence, from a buffer of at most 21 entries that
  starts with the preamble, the first entry never changes and the length after any run of
  exchanges is the smaller of 21 and the old length plus two per successful exchange:
  after 25 successful exchanges from the buffer that holds only the preamble it is 21.
\<close>

theorem history_sliding_window:
  "(\<not> demo_mode c \<and> exchange_ok e p c \<longrightarrow>
      llm_history (snd (generate e p c)) =
        (let h = llm_history c @ [(''user'', p), (''assistant'', fst (generate e p c))]
         in if length h > 21 then hd h # drop (length h - 20) h else h))
   \<and> (\<not> demo_mode c \<and> llm_history c \<noteq> [] \<and> length (llm_history c) \<le> 21 \<longrightarrow>
        length (llm_history (exchanges e ps c)) =
           min 21 (length (llm_history c) + 2 * successful_exchanges e ps c)
        \<and> hd (llm_history (exchanges e ps c)) = hd (llm_history c))
   \<and> (\<not> demo_mode c \<and> llm_history c = [(''system'', SYSTEM_PROMPT)]
        \<and> successful_exchanges e ps c = 25 \<longrightarrow>
        length (llm_history (exchanges e ps c)) = 21
        \<and> hd (llm_history (exchanges e ps c)) = (''system'', SYSTEM_PROMPT))"
proof (intro conjI impI)
  assume "\<not> demo_mode c \<and> exchange_ok e p c"
  then show "llm_history (snd (generate e p c)) =
        (let h = llm_history c @ [(''user'', p), (''assistant'', fst (generate e p c))]
         in if length h > 21 then hd h # drop (length h - 20) h else h)"
    by (simp add: history_generate_ok trim_history_def Let_def)
next
  assume a: "\<not> demo_mode c \<and> llm_history c \<noteq> [] \<and> length (llm_history c) \<le> 21"
  then show "length (llm_history (exchanges e ps c)) =
           min 21 (length (llm_history c) + 2 * successful_exchanges e ps c)"
    and "hd (llm_history (exchanges e ps c)) = hd (llm_history c)"
    using exchanges_bound[of c e ps] by blast+
next
  assume a: "\<not> demo_mode c \<and> llm_history c = [(''system'', SYSTEM_PROMPT)]
        \<and> successful_exchanges e ps c = 25"
  then have "\<not> demo_mode c" "llm_history c \<noteq> []" "length (llm_history c) \<le> 21" by simp_all
  from exchanges_bound[OF this, of e ps] a
  show "length (llm_history (exchanges e ps c)) = 21"
    and "hd (llm_history (exchanges e ps c)) = (''system'', SYSTEM_PROMPT)"
    by simp_all
qed

theorem history_sliding_window_witness:
  "\<not> demo_mode connected_client
   \<and> exchange_ok online_env ''hi'' connected_client
   \<and> llm_history connected_client = [(''system'', SYSTEM_PROMPT)]
   \<and> successful_exchanges online_env (replicate 25 ''hi'') connected_client = 25
   \<and> length (llm_history (exchanges online_env (replicate 25 ''hi'') connected_client)) = 21
   \<and> hd (llm_history (exchanges online_env (replicate 25 ''hi'') connected_client)) =
       (''system'', SYSTEM_PROMPT)"
proof -
  note t = history_sliding_window[of connected_client online_env "''hi''" "replicate 25 ''hi''"]
  have a: "exchange_ok online_env ''hi'' connected_client"
    by (simp add: exchange_ok_def online_remote)
  have b: "llm_history connected_client = [(''system'', SYSTEM_PROMPT)]"
    by (simp add: connected_client_def)
  have c: "successful_exchanges online_env (replicate 25 ''hi'') connected_client = 25"
    using all_succeed[of online_env connected_client "replicate 25 ''hi''"]
    by (simp add: online_remote connected_not_demo)
  show ?thesis using t a b c connected_not_demo by blast
qed

section \<open>Technical questions and closing phrases\<close>

lemma has_conclusion_indicator_iff:
  "has_conclusion_indicator m \<longleftrightarrow>
     (\<exists>i\<in>set conclusion_indicators. \<exists>p q. lower m = p @ i @ q)"
  by (simp add: has_conclusion_indicator_def list_ex_iff substr_in_iff)

lemma process_message_dispatch:
  assumes "sanitize_input raw \<noteq> []" "\<not> check_exit_intent (sanitize_input raw)"
  shows "process_message e raw h =
     (case phase (state h) of
        GREETING \<Rightarrow>
          handle_greeting e (sanitize_input raw) (add_to_history ''user'' (sanitize_input raw) h)
      | INFO_GATHERING \<Rightarrow>
          handle_info_gathering e (sanitize_input raw)
            (add_to_history ''user'' (sanitize_input raw) h)
      | TECH_STACK \<Rightarrow>
          handle_tech_stack e (sanitize_input raw) (add_to_history ''user'' (sanitize_input raw) h)
      | TECHNICAL_QUESTIONS \<Rightarrow>
          handle_technical_questions e (sanitize_input raw)
            (add_to_history ''user'' (sanitize_input raw) h)
      | CONCLUSION \<Rightarrow>
          handle_conclusion e (sanitize_input raw) (add_to_history ''user'' (sanitize_input raw) h)
      | ENDED \<Rightarrow>
          handle_fallback e (sanitize_input raw) (add_to_history ''user'' (sanitize_input raw) h))"
  using assms by (simp add: process_message_def Let_def)

lemma handle_technical_questions_closing:
  assumes "has_conclusion_indicator m"
  shows "phase (state (snd (handle_technical_questions e m h))) = CONCLUSION"
    and "fst (handle_technical_questions e m h) =
           Inr (fst (generate_conclusion e (format_candidate_summary (candidate_info (state h)))
                  (snd (generate e (evaluation_prompt (evaluation_context h) m) (llm h)))),
                False)"
  using assms
  by (simp_all add: handle_technical_questions_def Let_def case_prod_beta set_phase_def
        add_to_history_def state_generate_conclusion_message
        generate_conclusion_message_def evaluation_context_def)

lemma handle_technical_questions_open:
  assumes "\<not> has_conclusion_indicator m"
  shows "phase (state (snd (handle_technical_questions e m h))) = phase (state h)"
    and "fst (handle_technical_questions e m h) =
           Inr (fst (generate e (evaluation_prompt (evaluation_context h) m) (llm h)), False)"
  using assms
  by (simp_all add: handle_technical_questions_def Let_def case_prod_beta
        add_to_history_def evaluation_context_def)

lemma state_add_to_history:
  "state (add_to_history r c h) =
     (state h)\<lparr>conversation_history := conversation_history (state h) @ [(r, c)]\<rparr>"
  by (simp add: add_to_history_def)

lemma llm_add_to_history [simp]: "llm (add_to_history r c h) = llm h"
  by (simp add: add_to_history_def)

lemma tq_phase: "phase (state (set_phase TECHNICAL_QUESTIONS h)) = TECHNICAL_QUESTIONS"
  by (simp add: set_phase_def)

text \<open>
  Claim C2, as amended.  While the phase is technical_questions, a message that (after
  sanitising, lower-cased) contains one of the closing phrases and has no exit intent
  moves the phase to conclusion, and \<open>process_message\<close> returns the generated conclusion
  with \<open>ended = False\<close> instead of the evaluative reply.  The exit check comes first: a
  closing phrase that is also an exit keyword (\<open>that's all\<close>, \<open>no more\<close>) ends the session.
\<close>

theorem closing_phrase_moves_to_conclusion:
  assumes "phase (state h) = TECHNICAL_QUESTIONS"
    and "sanitize_input raw \<noteq> []"
    and "\<not> check_exit_intent (sanitize_input raw)"
    and "has_conclusion_indicator (sanitize_input raw)"
  shows "(\<exists>i\<in>set conclusion_indicators. \<exists>p q. lower (sanitize_input raw) = p @ i @ q)
    \<and> phase (state (snd (process_message e raw h))) = CONCLUSION
    \<and> fst (process_message e raw h) =
        Inr (fst (generate_conclusion e (format_candidate_summary (candidate_info (state h)))
               (snd (generate e
                  (evaluation_prompt
                     (evaluation_context (add_to_history ''user'' (sanitize_input raw) h))
                     (sanitize_input raw))
                  (llm h)))),
             False)"
proof -
  let ?m = "sanitize_input raw"
  let ?h1 = "add_to_history ''user'' ?m h"
  have p: "process_message e raw h = handle_technical_questions e ?m ?h1"
    using assms(1-3) by (simp add: process_message_dispatch)
  have c: "candidate_info (state ?h1) = candidate_info (state h)"
    by (simp add: state_add_to_history)
  show ?thesis
    using handle_technical_questions_closing[OF assms(4), of e ?h1] assms(4) c
    by (simp add: p has_conclusion_indicator_iff)
qed

theorem closing_phrase_exit_counterexample:
  "phase (state (set_phase TECHNICAL_QUESTIONS (new_handler demo_client))) = TECHNICAL_QUESTIONS
   \<and> sanitize_input ''that's all'' = ''that's all''
   \<and> has_conclusion_indicator ''that's all''
   \<and> phase (state (snd (process_message offline_env ''that's all''
        (set_phase TECHNICAL_QUESTIONS (new_handler demo_client))))) = ENDED
   \<and> ended_of (fst (process_message offline_env ''that's all''
        (set_phase TECHNICAL_QUESTIONS (new_handler demo_client)))) = Some True"
proof -
  have s: "sanitize_input ''that's all'' = ''that's all''" by code_simp
  have x: "check_exit_intent ''that's all''" by code_simp
  have i: "has_conclusion_indicator ''that's all''" by code_simp
  have n: "sanitize_input ''that's all'' \<noteq> []" "check_exit_intent (sanitize_input ''that's all'')"
    using s x by simp_all
  show ?thesis
    using s i tq_phase
    by (simp add: process_message_exit[OF n] phase_handle_exit ended_of_def)
qed

theorem closing_phrase_moves_to_conclusion_witness:
  "phase (state (set_phase TECHNICAL_QUESTIONS (new_handler demo_client))) = TECHNICAL_QUESTIONS
   \<and> sanitize_input ''I am done'' \<noteq> []
   \<and> \<not> check_exit_intent (sanitize_input ''I am done'')
   \<and> has_conclusion_indicator (sanitize_input ''I am done'')
   \<and> phase (state (snd (process_message offline_env ''I am done''
        (set_phase TECHNICAL_QUESTIONS (new_handler demo_client))))) = CONCLUSION"
proof -
  have s: "sanitize_input ''I am done'' = ''I am done''" by code_simp
  have x: "\<not> check_exit_intent ''I am done''" by code_simp
  have i: "has_conclusion_indicator ''I am done''" by code_simp
  have a: "sanitize_input ''I am done'' \<noteq> []"
    "\<not> check_exit_intent (sanitize_input ''I am done'')"
    "has_conclusion_indicator (sanitize_input ''I am done'')"
    using s x i by simp_all
  note t = closing_phrase_moves_to_conclusion
     [where h = "set_phase TECHNICAL_QUESTIONS (new_handler demo_client)"
        and raw = "''I am done''" and e = offline_env]
  show ?thesis using t a tq_phase by blast
qed

section \<open>The tech-stack step\<close>

lemma handle_tech_stack_effect:
  "tech_stack_parsed (state (snd (handle_tech_stack e m h))) = parse_tech_stack (list_of_set e) m"
  "candidate_info (state (snd (handle_tech_stack e m h))) =
     AList.update ''tech_stack'' m (candidate_info (state h))"
  "ended_of (fst (handle_tech_stack e m h)) = Some False"
  "parse_tech_stack (list_of_set e) m = [] \<Longrightarrow>
     fst (handle_tech_stack e m h) = Inr (tech_stack_reprompt, False)"
  by (simp_all add: handle_tech_stack_def Let_def case_prod_beta set_info_def set_phase_def
        add_to_history_def ended_of_def)

lemma ts_phase: "phase (state (set_phase TECH_STACK h)) = TECH_STACK"
  by (simp add: set_phase_def)

lemma parse_x: "parse_tech_stack (list_of_set offline_env) ''x'' = []"
  by code_simp

text \<open>
  Claim C8, as amended.  In the tech_stack phase, for a message without exit intent,
  \<open>_handle_tech_stack\<close> first stores the parsed list and the raw (sanitised) message text
  under \<open>tech_stack\<close>, whatever the parse finds.  When no technology is found the reply is
  the re-prompt, with \<open>ended = False\<close>, and the phase stays tech_stack; otherwise the phase
  moves to technical_questions.
\<close>

theorem tech_stack_is_stored_before_the_check:
  assumes "phase (state h) = TECH_STACK"
    and "sanitize_input raw \<noteq> []"
    and "\<not> check_exit_intent (sanitize_input raw)"
  shows "tech_stack_parsed (state (snd (process_message e raw h))) =
           parse_tech_stack (list_of_set e) (sanitize_input raw)
    \<and> candidate_info (state (snd (process_message e raw h))) =
           AList.update ''tech_stack'' (sanitize_input raw) (candidate_info (state h))
    \<and> phase (state (snd (process_message e raw h))) =
           (if parse_tech_stack (list_of_set e) (sanitize_input raw) = []
            then TECH_STACK else TECHNICAL_QUESTIONS)
    \<and> ended_of (fst (process_message e raw h)) = Some False
    \<and> (parse_tech_stack (list_of_set e) (sanitize_input raw) = [] \<longrightarrow>
          fst (process_message e raw h) = Inr (tech_stack_reprompt, False))"
proof -
  let ?m = "sanitize_input raw"
  let ?h1 = "add_to_history ''user'' ?m h"
  have p: "process_message e raw h = handle_tech_stack e ?m ?h1"
    using assms by (simp add: process_message_dispatch)
  have c: "candidate_info (state ?h1) = candidate_info (state h)"
    "phase (state ?h1) = TECH_STACK"
    using assms(1) by (simp_all add: state_add_to_history)
  show ?thesis
    unfolding p
    using handle_tech_stack_effect[of e ?m ?h1] phase_handle_tech_stack[of e ?m ?h1] c
    by simp
qed

theorem tech_stack_stored_counterexample:
  "phase (state (set_phase TECH_STACK (new_handler demo_client))) = TECH_STACK
   \<and> candidate_info (state (set_phase TECH_STACK (new_handler demo_client))) = []
   \<and> parse_tech_stack (list_of_set offline_env) (sanitize_input ''x'') = []
   \<and> phase (state (snd (process_message offline_env ''x''
         (set_phase TECH_STACK (new_handler demo_client))))) = TECH_STACK
   \<and> candidate_info (state (snd (process_message offline_env ''x''
         (set_phase TECH_STACK (new_handler demo_client))))) = [(''tech_stack'', ''x'')]"
proof -
  have s: "sanitize_input ''x'' = ''x''" by code_simp
  have x: "\<not> check_exit_intent ''x''" by code_simp
  have n: "sanitize_input ''x'' \<noteq> []" "\<not> check_exit_intent (sanitize_input ''x'')"
    using s x by simp_all
  have i: "candidate_info (state (set_phase TECH_STACK (new_handler demo_client))) = []"
    by (simp add: set_phase_def new_handler_def new_state_def)
  have p: "process_message offline_env ''x'' (set_phase TECH_STACK (new_handler demo_client)) =
      handle_tech_stack offline_env ''x''
        (add_to_history ''user'' ''x'' (set_phase TECH_STACK (new_handler demo_client)))"
    using process_message_dispatch[OF n, of offline_env "set_phase TECH_STACK (new_handler demo_client)"]
    by (simp add: ts_phase s)
  show ?thesis
    using i parse_x
    by (simp add: p s ts_phase handle_tech_stack_effect phase_handle_tech_stack
          state_add_to_history)
qed

theorem tech_stack_is_stored_before_the_check_witness:
  "phase (state (set_phase TECH_STACK (new_handler demo_client))) = TECH_STACK
   \<and> sanitize_input ''x'' \<noteq> []
   \<and> \<not> check_exit_intent (sanitize_input ''x'')
   \<and> parse_tech_stack (list_of_set offline_env) (sanitize_input ''x'') = []
   \<and> fst (process_message offline_env ''x'' (set_phase TECH_STACK (new_handler demo_client))) =
        Inr (tech_stack_reprompt, False)
   \<and> phase (state (snd (process_message offline_env ''x''
         (set_phase TECH_STACK (new_handler demo_client))))) = TECH_STACK"
proof -
  have s: "sanitize_input ''x'' = ''x''" by code_simp
  have x: "\<not> check_exit_intent ''x''" by code_simp
  have n: "sanitize_input ''x'' \<noteq> []" "\<not> check_exit_intent (sanitize_input ''x'')"
    using s x by simp_all
  have q: "parse_tech_stack (list_of_set offline_env) (sanitize_input ''x'') = []"
    using parse_x s by simp
  note t = tech_stack_is_stored_before_the_check
     [where h = "set_phase TECH_STACK (new_handler demo_client)"
        and raw = "''x''" and e = offline_env]
  show ?thesis using t n q ts_phase by simp
qed

section \<open>Leaving the conversation and the saved record\<close>

lemma bye_is_exit: "sanitize_input ''bye'' \<noteq> []" "check_exit_intent (sanitize_input ''bye'')"
  by code_simp+

lemma candidate_info_handle_exit:
  "candidate_info (state (snd (handle_exit e h))) = candidate_info (state h)"
  by (simp add: handle_exit_def Let_def case_prod_beta set_phase_def add_to_history_def)

lemma candidate_info_process_exit:
  assumes "sanitize_input raw \<noteq> []" "check_exit_intent (sanitize_input raw)"
  shows "candidate_info (state (snd (process_message e raw h))) = candidate_info (state h)"
  by (simp add: process_message_exit[OF assms] candidate_info_handle_exit state_add_to_history)

lemma chat_input_exit:
  assumes "initialized app" "\<not> conversation_ended app" "prompt \<noteq> []"
    and "sanitize_input prompt \<noteq> []" "check_exit_intent (sanitize_input prompt)"
  shows "chat_input e stamp iso_time prompt app =
     (None,
      export_conversation stamp iso_time
        (app\<lparr>conversation_handler := snd (process_message e prompt (conversation_handler app)),
              messages := messages app @
                 [(''user'', prompt),
                  (''assistant'',
                   fst (handle_exit e
                     (add_to_history ''user'' (sanitize_input prompt) (conversation_handler app))))],
              conversation_ended := True\<rparr>))"
  using assms(1-3)
  by (simp add: chat_input_def Let_def process_message_exit[OF assms(4,5)])

lemma chat_input_bye:
  assumes "initialized app" "\<not> conversation_ended app"
  shows "fst (chat_input e stamp iso_time ''bye'' app) = None"
    and "phase (state (conversation_handler (snd (chat_input e stamp iso_time ''bye'' app)))) = ENDED"
    and "conversation_ended (snd (chat_input e stamp iso_time ''bye'' app))"
    and "files (snd (chat_input e stamp iso_time ''bye'' app)) =
      (if candidate_info (state (conversation_handler app)) = [] then files app
       else (files app)
         (''candidate_data/candidate_'' @ stamp @ ''.json'' \<mapsto>
            \<lparr>candidate_id = ''candidate_'' @ stamp,
             submission_timestamp = iso_time,
             saved_candidate_info = candidate_info (state (conversation_handler app)),
             saved_conversation_history =
               conversation_history (state (snd (process_message e ''bye'' (conversation_handler app)))),
             data_handling_notice = ''This data is collected for recruitment purposes only.''\<rparr>))"
    and "sidebar (snd (chat_input e stamp iso_time ''bye'' app)) =
      sidebar app @
      (if candidate_info (state (conversation_handler app)) = []
       then [Warning ''No data to export yet'']
       else [Success (''candidate_data/candidate_'' @ stamp @ ''.json'')])"
proof -
  have ne: "''bye'' \<noteq> []" by simp
  note ci = chat_input_exit[OF assms ne bye_is_exit, of e stamp iso_time]
  note info = candidate_info_process_exit[OF bye_is_exit, of e "conversation_handler app"]
  have ph: "phase (state (snd (process_message e ''bye'' (conversation_handler app)))) = ENDED"
    by (simp add: process_message_exit[OF bye_is_exit] phase_handle_exit)
  show "fst (chat_input e stamp iso_time ''bye'' app) = None" by (simp add: ci)
  show "phase (state (conversation_handler (snd (chat_input e stamp iso_time ''bye'' app)))) = ENDED"
    using ph by (simp add: ci export_conversation_def Let_def case_prod_beta)
  show "conversation_ended (snd (chat_input e stamp iso_time ''bye'' app))"
    by (simp add: ci export_conversation_def Let_def case_prod_beta)
  show "files (snd (chat_input e stamp iso_time ''bye'' app)) =
      (if candidate_info (state (conversation_handler app)) = [] then files app
       else (files app)
         (''candidate_data/candidate_'' @ stamp @ ''.json'' \<mapsto>
            \<lparr>candidate_id = ''candidate_'' @ stamp,
             submission_timestamp = iso_time,
             saved_candidate_info = candidate_info (state (conversation_handler app)),
             saved_conversation_history =
               conversation_history (state (snd (process_message e ''bye'' (conversation_handler app)))),
             data_handling_notice = ''This data is collected for recruitment purposes only.''\<rparr>))"
    using info
    by (simp add: ci export_conversation_def Let_def case_prod_beta save_candidate_data_def
          get_candidate_info_def get_conversation_history_def)
  show "sidebar (snd (chat_input e stamp iso_time ''bye'' app)) =
      sidebar app @
      (if candidate_info (state (conversation_handler app)) = []
       then [Warning ''No data to export yet'']
       else [Success (''candidate_data/candidate_'' @ stamp @ ''.json'')])"
    using info
    by (simp add: ci export_conversation_def Let_def case_prod_beta save_candidate_data_def
          get_candidate_info_def get_conversation_history_def)
qed

lemma started_app:
  "initialized (start_conversation e (initialize_session_state c fs))"
  "\<not> conversation_ended (start_conversation e (initialize_session_state c fs))"
  "candidate_info (state (conversation_handler
      (start_conversation e (initialize_session_state c fs)))) = []"
  "phase (state (conversation_handler
      (start_conversation e (initialize_session_state c fs)))) = INFO_GATHERING"
  "files (start_conversation e (initialize_session_state c fs)) = fs"
  "sidebar (start_conversation e (initialize_session_state c fs)) = []"
  by (simp_all add: start_conversation_def initialize_session_state_def case_prod_beta
        state_get_initial_greeting new_handler_def new_state_def)

text \<open>
  Claim C9, as amended.  When the user of a started chat page sends \<open>bye\<close>, at any phase,
  \<open>process_message\<close> returns \<open>ended = True\<close> and the session is in phase ended.  The page
  then exports the conversation: if at least one field has been collected, a record with
  all the fields collected so far is written to \<open>candidate_data/candidate_<stamp>.json\<close>;
  if no field has been collected, no record is written and the files are as before.
\<close>

theorem bye_ends_and_saves_collected_fields:
  assumes "initialized app" "\<not> conversation_ended app"
  shows "ended_of (fst (process_message e ''bye'' (conversation_handler app))) = Some True
    \<and> fst (chat_input e stamp iso_time ''bye'' app) = None
    \<and> phase (state (conversation_handler (snd (chat_input e stamp iso_time ''bye'' app)))) = ENDED
    \<and> conversation_ended (snd (chat_input e stamp iso_time ''bye'' app))
    \<and> files (snd (chat_input e stamp iso_time ''bye'' app)) =
      (if candidate_info (state (conversation_handler app)) = [] then files app
       else (files app)
         (''candidate_data/candidate_'' @ stamp @ ''.json'' \<mapsto>
            \<lparr>candidate_id = ''candidate_'' @ stamp,
             submission_timestamp = iso_time,
             saved_candidate_info = candidate_info (state (conversation_handler app)),
             saved_conversation_history =
               conversation_history (state (snd (process_message e ''bye'' (conversation_handler app)))),
             data_handling_notice = ''This data is collected for recruitment purposes only.''\<rparr>))"
proof -
  have "ended_of (fst (process_message e ''bye'' (conversation_handler app))) = Some True"
    by (simp add: process_message_exit[OF bye_is_exit] ended_of_def)
  then show ?thesis
    using chat_input_bye[OF assms, of e stamp iso_time] by blast
qed

theorem bye_without_fields_counterexample:
  "initialized (start_conversation offline_env (initialize_session_state demo_client (\<lambda>p. None)))
   \<and> \<not> conversation_ended
        (start_conversation offline_env (initialize_session_state demo_client (\<lambda>p. None)))
   \<and> phase (state (conversation_handler (snd (chat_input offline_env
        ''20240101_120000'' ''2024-01-01T12:00:00'' ''bye''
        (start_conversation offline_env (initialize_session_state demo_client (\<lambda>p. None))))))) = ENDED
   \<and> files (snd (chat_input offline_env ''20240101_120000'' ''2024-01-01T12:00:00'' ''bye''
        (start_conversation offline_env (initialize_session_state demo_client (\<lambda>p. None)))))
        ''candidate_data/candidate_20240101_120000.json'' = None
   \<and> sidebar (snd (chat_input offline_env ''20240101_120000'' ''2024-01-01T12:00:00'' ''bye''
        (start_conversation offline_env (initialize_session_state demo_client (\<lambda>p. None))))) =
       [Warning ''No data to export yet'']"
  using chat_input_bye
     [where app = "start_conversation offline_env (initialize_session_state demo_client (\<lambda>p. None))"
        and e = offline_env and stamp = "''20240101_120000''"
        and iso_time = "''2024-01-01T12:00:00''"]
  by (simp add: started_app)

theorem bye_ends_and_saves_collected_fields_witness:
  "initialized ada_app \<and> \<not> conversation_ended ada_app
   \<and> candidate_info (state (conversation_handler ada_app)) = [(''full_name'', ''Ada'')]
   \<and> conversation_ended (snd (chat_input offline_env ''20240101_120000'' ''2024-01-01T12:00:00''
        ''bye'' ada_app))
   \<and> map_option saved_candidate_info
        (files (snd (chat_input offline_env ''20240101_120000'' ''2024-01-01T12:00:00''
           ''bye'' ada_app)) ''candidate_data/candidate_20240101_120000.json'') =
       Some [(''full_name'', ''Ada'')]"
proof -
  have a: "initialized ada_app" "\<not> conversation_ended ada_app"
    "candidate_info (state (conversation_handler ada_app)) = [(''full_name'', ''Ada'')]"
    by (simp_all add: ada_app_def initialize_session_state_def set_info_def new_handler_def
          new_state_def)
  note t = bye_ends_and_saves_collected_fields
     [OF a(1,2), of offline_env "''20240101_120000''" "''2024-01-01T12:00:00''"]
  show ?thesis using t a by simp
qed

section \<open>Regular expressions and the email validator\<close>

lemma nullable_lang: "nullable r \<longleftrightarrow> [] \<in> lang r"
  by (induction r) (auto simp: conc_def intro: star.star_empty)

lemma cons_in_conc:
  "c # w \<in> conc A B \<longleftrightarrow>
     ([] \<in> A \<and> c # w \<in> B) \<or> (\<exists>u v. w = u @ v \<and> c # u \<in> A \<and> v \<in> B)"
proof
  assume "c # w \<in> conc A B"
  then obtain x y where xy: "c # w = x @ y" "x \<in> A" "y \<in> B" by (auto simp: conc_def)
  show "([] \<in> A \<and> c # w \<in> B) \<or> (\<exists>u v. w = u @ v \<and> c # u \<in> A \<and> v \<in> B)"
  proof (cases x)
    case Nil
    with xy show ?thesis by simp
  next
    case (Cons a u)
    with xy have "w = u @ y" "c # u \<in> A" by simp_all
    with xy(3) show ?thesis by blast
  qed
next
  assume "([] \<in> A \<and> c # w \<in> B) \<or> (\<exists>u v. w = u @ v \<and> c # u \<in> A \<and> v \<in> B)"
  then show "c # w \<in> conc A B"
  proof
    assume "[] \<in> A \<and> c # w \<in> B"
    then have "[] @ (c # w) \<in> conc A B" unfolding conc_def by blast
    then show ?thesis by simp
  next
    assume "\<exists>u v. w = u @ v \<and> c # u \<in> A \<and> v \<in> B"
    then obtain u v where "w = u @ v" "c # u \<in> A" "v \<in> B" by blast
    then have "(c # u) @ v \<in> conc A B" unfolding conc_def by blast
    then show ?thesis using \<open>w = u @ v\<close> by simp
  qed
qed

lemma cons_in_star:
  "c # w \<in> star A \<longleftrightarrow> (\<exists>u v. w = u @ v \<and> c # u \<in> A \<and> v \<in> star A)"
proof
  assume "c # w \<in> star A"
  then show "\<exists>u v. w = u @ v \<and> c # u \<in> A \<and> v \<in> star A"
  proof (induction "c # w" arbitrary: w rule: star.induct)
    case (star_step x y)
    show ?case
    proof (cases x)
      case Nil
      with star_step show ?thesis by simp
    next
      case (Cons a u)
      with star_step.hyps have "w = u @ y" "c # u \<in> A" by simp_all
      with star_step.hyps(2) show ?thesis by blast
    qed
  qed
next
  assume "\<exists>u v. w = u @ v \<and> c # u \<in> A \<and> v \<in> star A"
  then obtain u v where "w = u @ v" "c # u \<in> A" "v \<in> star A" by blast
  then have "(c # u) @ v \<in> star A" by (blast intro: star.star_step)
  then show "c # w \<in> star A" using \<open>w = u @ v\<close> by simp
qed

lemma deriv_lang: "w \<in> lang (deriv c r) \<longleftrightarrow> c # w \<in> lang r"
proof (induction r arbitrary: w)
  case (Seq r s)
  show ?case
    by (auto simp: cons_in_conc nullable_lang Seq.IH) (auto simp: conc_def Seq.IH)
next
  case (Rep r)
  show ?case
    by (auto simp: cons_in_star conc_def Rep.IH)
qed auto

lemma matches_lang: "matches r w \<longleftrightarrow> w \<in> lang r"
  by (induction w arbitrary: r) (simp_all add: nullable_lang deriv_lang)

lemma star_sym: "star {[c] | c. P c} = {w. \<forall>c\<in>set w. P c}"
proof (intro equalityI subsetI)
  fix w assume "w \<in> star {[c] | c. P c}"
  then show "w \<in> {w. \<forall>c\<in>set w. P c}"
    by (induction rule: star.induct) auto
next
  fix w assume "w \<in> {w. \<forall>c\<in>set w. P c}"
  then have "\<forall>c\<in>set w. P c" by simp
  then show "w \<in> star {[c] | c. P c}"
  proof (induction w)
    case Nil
    show ?case by (rule star.star_empty)
  next
    case (Cons a w)
    then have "[a] \<in> {[c] | c. P c}" "w \<in> star {[c] | c. P c}" by auto
    then have "[a] @ w \<in> star {[c] | c. P c}" by (rule star.star_step)
    then show ?case by simp
  qed
qed

lemma lang_one_or_more_sym:
  "lang (one_or_more (Sym P)) = {w. w \<noteq> [] \<and> (\<forall>c\<in>set w. P c)}"
proof (intro equalityI subsetI)
  fix w assume "w \<in> lang (one_or_more (Sym P))"
  then show "w \<in> {w. w \<noteq> [] \<and> (\<forall>c\<in>set w. P c)}"
    by (auto simp: one_or_more_def conc_def star_sym)
next
  fix w assume "w \<in> {w. w \<noteq> [] \<and> (\<forall>c\<in>set w. P c)}"
  then obtain a u where "w = a # u" "P a" "\<forall>c\<in>set u. P c" by (cases w) auto
  then have "w = [a] @ u" "[a] \<in> lang (Sym P)" "u \<in> lang (Rep (Sym P))"
    by (auto simp: star_sym)
  then show "w \<in> lang (one_or_more (Sym P))"
    unfolding one_or_more_def lang.simps(5) conc_def by blast
qed

lemma lang_two_or_more_sym:
  "lang (Seq (exactly 2 (Sym P)) (Rep (Sym P))) = {w. 2 \<le> length w \<and> (\<forall>c\<in>set w. P c)}"
proof (intro equalityI subsetI)
  fix w assume "w \<in> lang (Seq (exactly 2 (Sym P)) (Rep (Sym P)))"
  then show "w \<in> {w. 2 \<le> length w \<and> (\<forall>c\<in>set w. P c)}"
    by (auto simp: numeral_2_eq_2 conc_def star_sym)
next
  fix w assume "w \<in> {w. 2 \<le> length w \<and> (\<forall>c\<in>set w. P c)}"
  then obtain a b u where w: "w = a # b # u" "P a" "P b" "\<forall>c\<in>set u. P c"
    by (cases w; cases "tl w") auto
  have "[a] \<in> lang (Sym P)" "[b] @ [] \<in> conc (lang (Sym P)) (lang Eps)"
    using w(2,3) unfolding conc_def by auto
  then have "[a] @ [b] @ [] \<in> conc (lang (Sym P)) (conc (lang (Sym P)) (lang Eps))"
    unfolding conc_def[of "lang (Sym P)" "conc (lang (Sym P)) (lang Eps)"] by blast
  then have "[a, b] \<in> lang (exactly 2 (Sym P))"
    by (simp add: numeral_2_eq_2)
  moreover have "u \<in> lang (Rep (Sym P))" using w(4) by (simp add: star_sym)
  moreover have "w = [a, b] @ u" using w(1) by simp
  ultimately show "w \<in> lang (Seq (exactly 2 (Sym P)) (Rep (Sym P)))"
    unfolding lang.simps(5) conc_def by blast
qed

lemma email_like_lang:
  "w \<in> lang
     (Seq (one_or_more (Sym L))
     (Seq (Sym (\<lambda>c. c = CHR ''@''))
     (Seq (one_or_more (Sym D))
     (Seq (Sym (\<lambda>c. c = CHR ''.''))
     (Seq (exactly 2 (Sym T)) (Rep (Sym T))))))) \<longleftrightarrow>
   (\<exists>l d t. w = l @ ''@'' @ d @ ''.'' @ t
      \<and> l \<noteq> [] \<and> (\<forall>c\<in>set l. L c)
      \<and> d \<noteq> [] \<and> (\<forall>c\<in>set d. D c)
      \<and> 2 \<le> length t \<and> (\<forall>c\<in>set t. T c))"
  unfolding lang.simps(5)[of "one_or_more (Sym L)"] lang.simps(5)[of "Sym (\<lambda>c. c = CHR ''@'')"]
    lang.simps(5)[of "one_or_more (Sym D)"] lang.simps(5)[of "Sym (\<lambda>c. c = CHR ''.'')"]
    lang_one_or_more_sym lang_two_or_more_sym
  by (auto simp: conc_def) blast

lemma strip_last_not_space:
  assumes "strip s \<noteq> []"
  shows "\<not> is_space (last (strip s))"
proof -
  let ?d = "dropWhile is_space (rev (dropWhile is_space s))"
  have ne: "?d \<noteq> []" using assms by (simp add: strip_def)
  then have "\<not> is_space (hd ?d)" by (rule hd_dropWhile)
  moreover have "last (strip s) = hd ?d" using ne by (simp add: strip_def last_rev)
  ultimately show ?thesis by simp
qed

lemma strip_id:
  assumes "s \<noteq> []" "\<not> is_space (hd s)" "\<not> is_space (last s)"
  shows "strip s = s"
proof -
  have a: "dropWhile is_space s = s" using assms(1,2) by (cases s) auto
  have "rev s \<noteq> []" "\<not> is_space (hd (rev s))" using assms(1,3) by (simp_all add: hd_rev)
  then have b: "dropWhile is_space (rev s) = rev s" by (cases "rev s") auto
  show ?thesis by (simp add: strip_def a b)
qed

lemma newline_is_space: "is_space (CHR 0x0A)"
  by (simp add: is_space_def)

lemma validate_email_lang: "validate_email s \<longleftrightarrow> strip s \<in> lang email_pattern"
proof -
  have "\<not> (strip s \<noteq> [] \<and> last (strip s) = CHR 0x0A \<and> matches email_pattern (butlast (strip s)))"
    using strip_last_not_space[of s] newline_is_space by auto
  then show ?thesis
    by (auto simp: validate_email_def re_match_anchored_def matches_lang)
qed

lemma validate_email_shape:
  "validate_email s \<longleftrightarrow>
     (\<exists>l d t. strip s = l @ ''@'' @ d @ ''.'' @ t
        \<and> l \<noteq> [] \<and> (\<forall>c\<in>set l. email_local_char c)
        \<and> d \<noteq> [] \<and> (\<forall>c\<in>set d. email_domain_char c)
        \<and> 2 \<le> length t \<and> (\<forall>c\<in>set t. is_ascii_letter c))"
  unfolding validate_email_lang email_pattern_def by (rule email_like_lang)

lemma letter_not_space: "is_ascii_letter c \<Longrightarrow> \<not> is_space c"
  by (auto simp: is_ascii_letter_def is_ascii_lower_def is_ascii_upper_def is_space_def Let_def)

lemma local_not_space: "email_local_char c \<Longrightarrow> \<not> is_space c"
  by (auto simp: email_local_char_def is_ascii_letter_def is_ascii_lower_def is_ascii_upper_def
        is_ascii_digit_def is_space_def Let_def)

lemma spec_local_is_local:
  "word_char c \<or> c \<in> set ''.+-'' \<Longrightarrow> email_local_char c"
  by (auto simp: word_char_def email_local_char_def)

lemma amended_domain_is_domain:
  "is_ascii_letter c \<or> is_ascii_digit c \<or> c \<in> set ''.-'' \<Longrightarrow> email_domain_char c"
  by (auto simp: email_domain_char_def)

lemma amended_match_valid:
  assumes "matches amended_email_pattern s"
  shows "validate_email s"
proof -
  from assms have "s \<in> lang amended_email_pattern" by (simp add: matches_lang)
  then obtain l d t where sh: "s = l @ ''@'' @ d @ ''.'' @ t"
      "l \<noteq> []" "\<forall>c\<in>set l. word_char c \<or> c \<in> set ''.+-''"
      "d \<noteq> []" "\<forall>c\<in>set d. is_ascii_letter c \<or> is_ascii_digit c \<or> c \<in> set ''.-''"
      "2 \<le> length t" "\<forall>c\<in>set t. is_ascii_letter c"
    unfolding amended_email_pattern_def email_like_lang by blast
  have l: "\<forall>c\<in>set l. email_local_char c" using sh(3) spec_local_is_local by blast
  have d: "\<forall>c\<in>set d. email_domain_char c" using sh(5) amended_domain_is_domain by blast
  have "hd s = hd l" using sh(1,2) by simp
  moreover have "hd l \<in> set l" using sh(2) by simp
  ultimately have h: "\<not> is_space (hd s)" using l local_not_space by metis
  have tne: "t \<noteq> []" using sh(6) by auto
  then have "last s = last t" using sh(1) by simp
  moreover have "last t \<in> set t" using tne by simp
  ultimately have e: "\<not> is_space (last s)" using sh(7) letter_not_space by metis
  have "s \<noteq> []" using sh(1,2) by simp
  then have "strip s = s" using h e by (rule strip_id)
  then show ?thesis
    unfolding validate_email_shape using sh(1,2,4,6,7) l d by metis
qed

lemma no_at_invalid:
  assumes "CHR ''@'' \<notin> set s"
  shows "\<not> validate_email s"
proof
  assume "validate_email s"
  then obtain l d t where "strip s = l @ ''@'' @ d @ ''.'' @ t"
    unfolding validate_email_shape by blast
  then have "CHR ''@'' \<in> set (strip s)" by simp
  then have "CHR ''@'' \<in> set (dropWhile is_space (rev (dropWhile is_space s)))"
    by (simp add: strip_def)
  then have "CHR ''@'' \<in> set (rev (dropWhile is_space s))" by (rule set_dropWhileD)
  then have "CHR ''@'' \<in> set (dropWhile is_space s)" by simp
  then have "CHR ''@'' \<in> set s" by (rule set_dropWhileD)
  with assms show False by simp
qed

lemma valid_has_final_label:
  assumes "validate_email s"
  shows "has_final_label (strip s)"
proof -
  from assms obtain l d t where sh: "strip s = l @ ''@'' @ d @ ''.'' @ t"
      "2 \<le> length t" "\<forall>c\<in>set t. is_ascii_letter c"
    unfolding validate_email_shape by blast
  have nodot: "\<forall>c\<in>set (rev t). c \<noteq> CHR ''.''"
    using sh(3) by (auto simp: is_ascii_letter_def is_ascii_lower_def is_ascii_upper_def Let_def)
  have "rev (strip s) = rev t @ CHR ''.'' # rev (l @ ''@'' @ d)"
    using sh(1) by simp
  then have "takeWhile (\<lambda>c. c \<noteq> CHR ''.'') (rev (strip s)) = rev t"
    using nodot by (simp add: takeWhile_tail)
  then show ?thesis
    using sh by (simp add: has_final_label_def list_all_iff)
qed

text \<open>
  Claim C5, as amended.  Every string that matches
  \<open>^[\w.+-]+@[A-Za-z0-9.-]+\.[A-Za-z]{2,}$\<close> (the expression of the claim with the
  underscore, and anything but ASCII letters and digits, taken out of the domain part) is
  accepted by \<open>validate_email\<close>; a string without \<open>@\<close> is rejected, and so is a string
  that, stripped of surrounding whitespace, does not end in a dot followed by two or more
  letters.  Exactly the strings are accepted whose stripped form is a non-empty local part
  over \<open>[a-zA-Z0-9._%+-]\<close>, \<open>@\<close>, a non-empty domain over \<open>[a-zA-Z0-9.-]\<close>, a dot and two or
  more letters.
\<close>

theorem validate_email_pattern:
  "(matches amended_email_pattern s1 \<longrightarrow> validate_email s1)
   \<and> (CHR ''@'' \<notin> set s2 \<longrightarrow> \<not> validate_email s2)
   \<and> (\<not> has_final_label (strip s3) \<longrightarrow> \<not> validate_email s3)
   \<and> (validate_email s \<longleftrightarrow>
        (\<exists>l d t. strip s = l @ ''@'' @ d @ ''.'' @ t
           \<and> l \<noteq> [] \<and> (\<forall>c\<in>set l. email_local_char c)
           \<and> d \<noteq> [] \<and> (\<forall>c\<in>set d. email_domain_char c)
           \<and> 2 \<le> length t \<and> (\<forall>c\<in>set t. is_ascii_letter c)))"
  using amended_match_valid[of s1] no_at_invalid[of s2] valid_has_final_label[of s3]
    validate_email_shape[of s]
  by blast

theorem validate_email_underscore_counterexample:
  "matches spec_email_pattern ''a@b_c.co'' \<and> \<not> validate_email ''a@b_c.co''"
  by code_simp

theorem validate_email_pattern_witness:
  "matches amended_email_pattern ''a_b@c.co'' \<and> validate_email ''a_b@c.co''
   \<and> CHR ''@'' \<notin> set ''ab.co'' \<and> \<not> validate_email ''ab.co''
   \<and> \<not> has_final_label (strip ''a@b.c'') \<and> \<not> validate_email ''a@b.c''"
proof -
  have a: "matches amended_email_pattern ''a_b@c.co''" by code_simp
  have b: "CHR ''@'' \<notin> set ''ab.co''" by simp
  have c: "\<not> has_final_label (strip ''a@b.c'')" by code_simp
  note t = validate_email_pattern[of "''a_b@c.co''" "''ab.co''" "''a@b.c''" "''a@b.co''"]
  show ?thesis using t a b c by blast
qed

section \<open>Parsing the tech stack\<close>

lemma set_scan_known:
  "set (scan_known ks t) = {normalized tech | tech. tech \<in> set ks \<and> substr_in tech t}"
  by (induction ks) (auto simp: normalized_def)

lemma set_add_custom:
  "set (add_custom ps ids) \<subseteq>
     set ids \<union> {strip p | p. p \<in> set ps \<and> length (strip p) > 1}"
proof (induction ps arbitrary: ids)
  case Nil
  then show ?case by simp
next
  case (Cons p ps)
  show ?case
    using Cons.IH[of ids] Cons.IH[of "ids @ [strip p]"]
    by (auto simp: Let_def)
qed

lemma set_identified:
  assumes "x \<in> set (identified_technologies text)"
  shows "(\<exists>tech\<in>set known_technologies. substr_in tech (lower text) \<and> x = normalized tech)
       \<or> (\<exists>piece\<in>set (re_split (\<lambda>c. c \<in> set '',;/\<newline>'') text).
             x = strip piece \<and> length x > 1)"
  using assms set_add_custom[of "re_split (\<lambda>c. c \<in> set '',;/\<newline>'') text"
      "scan_known known_technologies (lower text)"]
  unfolding identified_technologies_def set_scan_known by blast

lemma identified_example:
  "identified_technologies ''Python, Django, PostgreSQL'' =
     [''Python'', ''GO'', ''R'', ''Django'', ''Postgresql'']"
  by code_simp

text \<open>
  Claim C3, as amended.  Whatever the iteration order of a Python set is, the list
  returned by \<open>parse_tech_stack\<close> has at most 15 entries and no duplicates, and each entry
  is a known technology that occurs as a substring of the lower-cased text, written in
  title case (upper case when it has at most 3 characters), or a stripped piece of the
  text between separators, longer than one character.  The order of the entries is the
  iteration order of the set, not the order of discovery.  For
  \<open>Python, Django, PostgreSQL\<close> the result has the five entries \<open>Python\<close>, \<open>GO\<close>, \<open>R\<close>,
  \<open>Django\<close> and \<open>Postgresql\<close>, in some order.
\<close>

theorem parse_tech_stack_result:
  assumes "\<forall>xs. distinct (f xs) \<and> set (f xs) = set xs"
  shows "length (parse_tech_stack f text) \<le> 15
    \<and> distinct (parse_tech_stack f text)
    \<and> (\<forall>x\<in>set (parse_tech_stack f text).
          (\<exists>tech\<in>set known_technologies. substr_in tech (lower text) \<and> x = normalized tech)
        \<or> (\<exists>piece\<in>set (re_split (\<lambda>c. c \<in> set '',;/\<newline>'') text).
             x = strip piece \<and> length x > 1))
    \<and> length (parse_tech_stack f ''Python, Django, PostgreSQL'') = 5
    \<and> set (parse_tech_stack f ''Python, Django, PostgreSQL'') =
        {''Python'', ''GO'', ''R'', ''Django'', ''Postgresql''}"
proof -
  have d: "distinct (f xs)" and s: "set (f xs) = set xs" for xs using assms by simp_all
  have 1: "length (parse_tech_stack f text) \<le> 15" by (simp add: parse_tech_stack_def)
  have 2: "distinct (parse_tech_stack f text)" by (simp add: parse_tech_stack_def d)
  have 3: "(\<exists>tech\<in>set known_technologies. substr_in tech (lower text) \<and> x = normalized tech)
        \<or> (\<exists>piece\<in>set (re_split (\<lambda>c. c \<in> set '',;/\<newline>'') text).
             x = strip piece \<and> length x > 1)"
    if "x \<in> set (parse_tech_stack f text)" for x
  proof -
    from that have "x \<in> set (f (identified_technologies text))"
      unfolding parse_tech_stack_def by (rule in_set_takeD)
    then have "x \<in> set (identified_technologies text)" by (simp add: s)
    then show ?thesis by (rule set_identified)
  qed
  let ?ids = "[''Python'', ''GO'', ''R'', ''Django'', ''Postgresql'']"
  have "length (f ?ids) = card (set (f ?ids))" using d by (simp add: distinct_card)
  also have "\<dots> = card (set ?ids)" by (simp only: s)
  also have "\<dots> = length ?ids" by (rule distinct_card) simp
  finally have len: "length (f ?ids) = 5" by simp
  then have tk: "take 15 (f ?ids) = f ?ids" by simp
  have 4: "length (parse_tech_stack f ''Python, Django, PostgreSQL'') = 5"
    unfolding parse_tech_stack_def identified_example tk by (rule len)
  have 5: "set (parse_tech_stack f ''Python, Django, PostgreSQL'') =
        {''Python'', ''GO'', ''R'', ''Django'', ''Postgresql''}"
    unfolding parse_tech_stack_def identified_example tk s by simp
  show ?thesis using 1 2 3 4 5 by blast
qed

theorem parse_tech_stack_example_counterexample:
  "parse_tech_stack remdups ''Python, Django, PostgreSQL'' =
     [''Python'', ''GO'', ''R'', ''Django'', ''Postgresql'']
   \<and> parse_tech_stack remdups ''Python, Django, PostgreSQL'' \<noteq>
     [''Python'', ''Django'', ''PostgreSQL'']
   \<and> parse_tech_stack rev ''Python, Django, PostgreSQL'' =
     [''Postgresql'', ''Django'', ''R'', ''GO'', ''Python'']"
  by (simp add: parse_tech_stack_def identified_example)

theorem parse_tech_stack_result_witness:
  "(\<forall>xs::string list. distinct (remdups xs) \<and> set (remdups xs) = set xs)
   \<and> length (parse_tech_stack remdups ''Python, Django, PostgreSQL'') = 5
   \<and> set (parse_tech_stack remdups ''Python, Django, PostgreSQL'') =
        {''Python'', ''GO'', ''R'', ''Django'', ''Postgresql''}
   \<and> length (parse_tech_stack remdups ''Python, Django, PostgreSQL'') \<le> 15"
proof -
  have a: "\<forall>xs::string list. distinct (remdups xs) \<and> set (remdups xs) = set xs" by simp
  note t = parse_tech_stack_result[OF a, of "''Python, Django, PostgreSQL''"]
  show ?thesis using t a by blast
qed

end
